theory Spec2Isabelle
  imports Complex_Main
begin

section \<open>Values shared by the components\<close>

text \<open>
  JavaScript numbers are modelled by exact numbers: times, velocities and beats are
  \<open>real\<close>, button degrees are \<open>nat\<close>, MIDI note numbers are \<open>int\<close>.
  A read outside an array yields \<open>undefined\<close> in JavaScript; the value that reaches
  the engine as a pitch is therefore a \<open>jsnum\<close>.
\<close>

datatype jsnum = Num int | Undefined

text \<open>\<open>xs[i]\<close> for an integral index: \<open>undefined\<close> outside \<open>0 .. length - 1\<close>.\<close>

definition js_index :: "int list \<Rightarrow> int \<Rightarrow> jsnum" where
  "js_index xs i = (if 0 \<le> i \<and> i < int (length xs) then Num (xs ! nat i) else Undefined)"

text \<open>
  A JavaScript \<open>Set\<close> keeps insertion order; it is a list without repetition:
  \<open>add\<close> appends unless present, \<open>delete\<close> removes, \<open>size\<close> is the length.
\<close>

definition set_add :: "'a \<Rightarrow> 'a list \<Rightarrow> 'a list" where
  "set_add x xs = (if x \<in> set xs then xs else xs @ [x])"

definition set_delete :: "'a \<Rightarrow> 'a list \<Rightarrow> 'a list" where
  "set_delete x xs = removeAll x xs"

text \<open>
  A JavaScript \<open>Map\<close> that the code iterates is an association list in insertion
  order: \<open>set\<close> on a present key keeps its position.
\<close>

fun map_set :: "'k \<Rightarrow> 'v \<Rightarrow> ('k \<times> 'v) list \<Rightarrow> ('k \<times> 'v) list" where
  "map_set k v [] = [(k, v)]"
| "map_set k v ((k', v') # rest) =
     (if k' = k then (k, v) # rest else (k', v') # map_set k v rest)"

definition map_delete :: "'k \<Rightarrow> ('k \<times> 'v) list \<Rightarrow> ('k \<times> 'v) list" where
  "map_delete k m = filter (\<lambda>kv. fst kv \<noteq> k) m"

definition map_has :: "'k \<Rightarrow> ('k \<times> 'v) list \<Rightarrow> bool" where
  "map_has k m = (map_of m k \<noteq> None)"

datatype note_type = noteOn | noteOff

record recorded_note =
  time :: real
  ntype :: note_type
  midiNote :: jsnum
  velocity :: real
  degree :: nat

section \<open>Synthesis and effects configuration (useAppStore.ts)\<close>

datatype waveform_type = sine | sawtooth | square | triangle | fm | piano

datatype adsr_preset = LONG | SHORT | SWELL | PLUCK | TOUCH | SUSTAIN

record adsr =
  attack :: real
  decay :: real
  sustain :: real
  release :: real
  preset :: "adsr_preset option"

text \<open>
  A \<open>filter\<close> object as the playback code reads it: the properties \<open>cutoff\<close>,
  \<open>resonance\<close>, \<open>mode\<close> and \<open>enabled\<close>, each of them \<open>undefined\<close> (\<open>None\<close>) when the
  object does not have it. The empty object \<open>{}\<close> has none of them.
\<close>

record filter_cfg =
  cutoff :: "real option"
  resonance :: "real option"
  filter_mode :: "nat option"
  filter_enabled :: "bool option"

definition empty_object :: filter_cfg where
  "empty_object = \<lparr>cutoff = None, resonance = None, filter_mode = None, filter_enabled = None\<rparr>"

datatype lfo_target = to_pitch | to_filter | to_amplitude | to_pan

record lfo =
  lfo_rate :: real
  lfo_depth :: real
  lfo_waveform :: nat
  target :: lfo_target
  lfo_enabled :: bool

datatype stereo_mode = st_mono | st_stereo | st_wide

record effects =
  glide_enabled :: bool
  glide_time :: real
  tremolo_enabled :: bool
  tremolo_rate :: real
  tremolo_depth :: real
  flanger_enabled :: bool
  flanger_rate :: real
  flanger_depth :: real
  flanger_feedback :: real
  flanger_mix :: real
  delay_enabled :: bool
  delay_time :: real
  delay_feedback :: real
  delay_mix :: real
  reverb_enabled :: bool
  reverb_size :: real
  reverb_damping :: real
  reverb_mix :: real
  bass_enabled :: bool
  bass_level :: real
  stereo_mode :: stereo_mode

text \<open>
  The snapshot a pattern carries, and equally the part of the store it is taken from:
  \<open>synthesis.waveform\<close>, \<open>synthesis.adsr\<close>, \<open>synthesis.filter\<close>, \<open>synthesis.lfo\<close>,
  \<open>synthesis.detune\<close> and \<open>effects\<close>. The \<open>filter\<close> property may be missing (\<open>None\<close>):
  the store of \<open>useAppStore.ts\<close> declares and initialises no \<open>synthesis.filter\<close>, only
  the filter controls of the control panel write one; and of the makers of patterns,
  \<open>savePattern\<close> stores a copy of the store's filter object (the empty object when the
  store has none) while the pattern generators store no filter at all.
\<close>

record parameters =
  waveform :: waveform_type
  p_adsr :: adsr
  p_filter :: "filter_cfg option"
  p_lfo :: lfo
  detune :: real
  p_effects :: effects

section \<open>Patterns, clips and the sequencer store\<close>

record pattern =
  pattern_id :: string
  pattern_name :: string
  pattern_notes :: "recorded_note list"
  pattern_length :: real
  color :: string
  capturedParameters :: "parameters option"

record timeline_clip =
  clip_id :: string
  patternId :: string
  startTime :: real
  track :: nat

record sequencer =
  isRecording :: bool
  recordingStartTime :: real
  recordedNotes :: "recorded_note list"
  patterns :: "pattern list"
  timeline :: "timeline_clip list"
  isPlaying :: bool
  playbackPosition :: real

section \<open>The audio engine as a log of the calls it receives\<close>

text \<open>
  One constructor per method of \<open>WasmAudioEngine\<close> that the components call. The four
  filter setters take what the caller read from a filter object, \<open>undefined\<close> (\<open>None\<close>)
  included.
\<close>

datatype engine_call =
    NoteOn jsnum real
  | NoteOff jsnum bool
  | TimelineNoteOn jsnum real
  | TimelineNoteOff jsnum
  | SetWaveform nat
  | SetADSR real real real real
  | SetFilterCutoff "real option"
  | SetFilterResonance "real option"
  | SetFilterMode "nat option"
  | SetFilterEnabled "bool option"
  | SetLFORate real
  | SetLFODepth real
  | SetLFOWaveform nat
  | SetLFOToFilter bool
  | SetDetune real
  | SetGlideTime real
  | SetTremolo bool real real
  | SetFlanger bool real real real real
  | SetDelay bool real real real
  | SetReverb bool real real

fun is_note_on :: "jsnum \<Rightarrow> engine_call \<Rightarrow> bool" where
  "is_note_on p (NoteOn q v) = (q = p)"
| "is_note_on p c = False"

fun is_note_off :: "jsnum \<Rightarrow> engine_call \<Rightarrow> bool" where
  "is_note_off p (NoteOff q i) = (q = p)"
| "is_note_off p c = False"

text \<open>How many note-on and note-off calls for a pitch a log holds.\<close>

definition note_ons :: "jsnum \<Rightarrow> engine_call list \<Rightarrow> nat" where
  "note_ons p calls = length (filter (is_note_on p) calls)"

definition note_offs :: "jsnum \<Rightarrow> engine_call list \<Rightarrow> nat" where
  "note_offs p calls = length (filter (is_note_off p) calls)"

section \<open>Chord buttons: voice ownership and the arpeggiator\<close>

datatype playback_mode = play | arpeggiator | drum | autodrum

datatype arp_direction = arp_up | arp_down | arp_updown | arp_random

record arp_settings =
  arp_pattern :: arp_direction
  speed :: real
  octaves :: nat
  gate :: real

text \<open>
  What a render of the component closes over: whether an engine is present, the mode,
  the arpeggiator settings, and \<open>generateChord\<close> with its key, inversion and octave
  arguments fixed, as a function of the button.
\<close>

record props =
  audioEngine :: bool
  currentMode :: playback_mode
  arpSettings :: arp_settings
  generateChord :: "nat \<Rightarrow> int list"

text \<open>
  The closure of one arpeggiator run: the settings of the render that started it, its
  note sequence, cursor, sounding note and the pending gate timeout. A pending timeout
  remembers the note it was set for and the recording flags \<open>playNote\<close> read when it
  set the timeout.
\<close>

record arp_session =
  arpDegree :: nat
  captured :: arp_settings
  arpNotes :: "int list"
  baseVelocity :: real
  currentNoteIndex :: nat
  currentPlayingNote :: "jsnum option"
  noteOffTimeout :: "(jsnum \<times> bool \<times> real) option"
  intervalActive :: bool

text \<open>The two \<open>Math.random()\<close> draws and the clock reading of one \<open>playNote\<close>.\<close>

record draw =
  rnd_note :: real
  rnd_velocity :: real
  currentTime :: real

text \<open>
  The component's refs, the \<open>activeNotes\<close> state, the closures of its arpeggiator runs by
  interval handle (handles count from 1), the sequencer store it reads and writes, and
  the engine log. \<open>activeNotes\<close> is the \<open>useState\<close> value with the updates of
  \<open>setActiveNotes\<close> applied; the effect that follows a render assigns it to
  \<open>activeNotesRef.current\<close>, so the in-place \<open>set\<close> and \<open>delete\<close> on the ref reach the state's
  map as well. It differs from the ref in one case: for a button pressed in arpeggiator
  mode the ref gets the chord and the state the run's sequence. The \<open>useState\<close> copies
  of the other two refs are always given what the refs are given and are left out.
  Timers and renders are events of the environment: an interval or timeout fires when
  \<open>arpStep\<close> or \<open>gateTimeout\<close> is applied, the effects of a render run when \<open>syncRefs\<close> is.
\<close>

record chord_buttons =
  activeButtonsRef :: "nat set"
  activeNotesRef :: "nat \<rightharpoonup> int list"
  activeNotes :: "nat \<rightharpoonup> int list"
  arpIntervalsRef :: "nat \<rightharpoonup> nat"
  globalMidiNotesRef :: "int \<rightharpoonup> nat list"
  buttonPressTimeRef :: "nat \<rightharpoonup> real"
  lastVelocityRef :: "nat \<rightharpoonup> real"
  arpSessions :: "nat \<rightharpoonup> arp_session"
  timerCount :: nat
  store :: sequencer
  engineCalls :: "engine_call list"

definition record_note :: "recorded_note \<Rightarrow> chord_buttons \<Rightarrow> chord_buttons" where
  "record_note n s = s\<lparr>store := (store s)\<lparr>recordedNotes := recordedNotes (store s) @ [n]\<rparr>\<rparr>"

text \<open>The body of \<open>chord.forEach\<close> in \<open>handleButtonDown\<close>, play mode.\<close>

definition pressNote :: "nat \<Rightarrow> real \<Rightarrow> chord_buttons \<Rightarrow> int \<Rightarrow> chord_buttons" where
  "pressNote deg vel s note =
     (let holdingButtons = (case globalMidiNotesRef s note of None \<Rightarrow> [] | Some hs \<Rightarrow> hs);
          isAlreadyPlaying = (length holdingButtons > 0);
          s1 = s\<lparr>globalMidiNotesRef := (globalMidiNotesRef s)(note \<mapsto> set_add deg holdingButtons)\<rparr>
      in if isAlreadyPlaying then s1
         else s1\<lparr>engineCalls := engineCalls s1 @ [NoteOn (Num note) vel]\<rparr>)"

text \<open>The sequence an arpeggiator run steps through.\<close>

definition extendChord :: "nat \<Rightarrow> int list \<Rightarrow> int list" where
  "extendChord octs chord = concat (map (\<lambda>oct. map (\<lambda>note. note + int oct * 12) chord) [0..<octs])"

definition buildArpNotes :: "arp_settings \<Rightarrow> int list \<Rightarrow> int list" where
  "buildArpNotes a chord =
     (let extendedChord = extendChord (octaves a) chord
      in if arp_pattern a = arp_down then rev extendedChord
         else if arp_pattern a = arp_updown
           then butlast extendedChord @ butlast (rev extendedChord)
         else extendedChord)"

text \<open>
  \<open>playNote\<close> of the session with interval handle \<open>h\<close>: cancel the pending gate
  timeout, stop the previous note, choose and start the next one, record it, and set
  the gate timeout when \<open>gate < 1\<close>.
\<close>

definition playNote :: "nat \<Rightarrow> draw \<Rightarrow> chord_buttons \<Rightarrow> chord_buttons" where
  "playNote h dr s =
     (case arpSessions s h of
        None \<Rightarrow> s
      | Some ss \<Rightarrow>
          let calls1 = (case currentPlayingNote ss of
                          None \<Rightarrow> engineCalls s
                        | Some prev \<Rightarrow> engineCalls s @ [NoteOff prev True]);
              n = int (length (arpNotes ss));
              noteToPlay = (if arp_pattern (captured ss) = arp_random
                            then js_index (arpNotes ss) \<lfloor>rnd_note dr * real_of_int n\<rfloor>
                            else if n = 0 then Undefined
                            else js_index (arpNotes ss) (int (currentNoteIndex ss) mod n));
              idx = (if arp_pattern (captured ss) = arp_random then currentNoteIndex ss
                     else currentNoteIndex ss + 1);
              vel = baseVelocity ss * (0.95 + rnd_velocity dr * 0.1);
              rec = isRecording (store s);
              recStart = recordingStartTime (store s);
              st1 = (if rec
                     then (if recStart = 0
                           then (store s)\<lparr>recordingStartTime := currentTime dr,
                                  recordedNotes := [\<lparr>time = 0, ntype = noteOn, midiNote = noteToPlay,
                                     velocity = vel, degree = arpDegree ss + 1\<rparr>]\<rparr>
                           else (store s)\<lparr>recordedNotes := recordedNotes (store s) @
                                  [\<lparr>time = currentTime dr - recStart, ntype = noteOn,
                                    midiNote = noteToPlay, velocity = vel,
                                    degree = arpDegree ss + 1\<rparr>]\<rparr>)
                     else store s);
              ss1 = ss\<lparr>currentNoteIndex := idx,
                      currentPlayingNote := Some noteToPlay,
                      noteOffTimeout := (if gate (captured ss) < 1
                                         then Some (noteToPlay, rec, recStart) else None)\<rparr>
          in s\<lparr>engineCalls := calls1 @ [NoteOn noteToPlay vel],
               store := st1,
               arpSessions := (arpSessions s)(h \<mapsto> ss1)\<rparr>)"

text \<open>The interval timer of session \<open>h\<close> fires: nothing once it has been cleared.\<close>

definition arpStep :: "nat \<Rightarrow> draw \<Rightarrow> chord_buttons \<Rightarrow> chord_buttons" where
  "arpStep h dr s =
     (case arpSessions s h of
        None \<Rightarrow> s
      | Some ss \<Rightarrow> if intervalActive ss then playNote h dr s else s)"

text \<open>
  The gate timeout of session \<open>h\<close> fires at clock reading \<open>now\<close>: nothing when none
  is pending; otherwise it stops its note if that is still the session's current one.
\<close>

definition gateTimeout :: "nat \<Rightarrow> real \<Rightarrow> chord_buttons \<Rightarrow> chord_buttons" where
  "gateTimeout h now s =
     (case arpSessions s h of
        None \<Rightarrow> s
      | Some ss \<Rightarrow>
          (case noteOffTimeout ss of
             None \<Rightarrow> s
           | Some (noteToPlay, rec, recStart) \<Rightarrow>
               if currentPlayingNote ss = Some noteToPlay
               then (let s1 = s\<lparr>engineCalls := engineCalls s @ [NoteOff noteToPlay True]\<rparr>;
                         s2 = (if rec \<and> recStart > 0
                               then record_note \<lparr>time = now - recStart, ntype = noteOff,
                                      midiNote = noteToPlay, velocity = 0,
                                      degree = arpDegree ss + 1\<rparr> s1
                               else s1)
                     in s2\<lparr>arpSessions := (arpSessions s2)(h \<mapsto>
                             ss\<lparr>currentPlayingNote := None, noteOffTimeout := None\<rparr>)\<rparr>)
               else s\<lparr>arpSessions := (arpSessions s)(h \<mapsto> ss\<lparr>noteOffTimeout := None\<rparr>)\<rparr>))"

text \<open>
  \<open>handleButtonDown(degree, eventTime)\<close>. \<open>now\<close> is the clock reading taken when no
  event time is given, \<open>dr\<close> serves the first \<open>playNote\<close> of an arpeggiator run. The
  chord is stored under the button in the map of \<open>activeNotesRef\<close>; \<open>setActiveNotes\<close> then
  stores the chord (play mode) or the run's sequence (arpeggiator mode) in the state.
\<close>

definition handleButtonDown ::
  "props \<Rightarrow> nat \<Rightarrow> real option \<Rightarrow> real \<Rightarrow> draw \<Rightarrow> chord_buttons \<Rightarrow> chord_buttons" where
  "handleButtonDown cfg deg eventTime now dr s =
     (if \<not> audioEngine cfg then s
      else if deg \<in> activeButtonsRef s then s
      else
        let pressTime = (case eventTime of None \<Rightarrow> now | Some t \<Rightarrow> if t = 0 then now else t);
            rec = isRecording (store s);
            recStart = recordingStartTime (store s);
            chord = generateChord cfg deg;
            s1 = s\<lparr>buttonPressTimeRef := (buttonPressTimeRef s)(deg \<mapsto> pressTime),
                   activeButtonsRef := insert deg (activeButtonsRef s),
                   activeNotesRef := (activeNotesRef s)(deg \<mapsto> chord),
                   activeNotes := (activeNotes s)(deg \<mapsto> chord)\<rparr>
        in if currentMode cfg = play then
             (let vel = 0.7;
                  s2 = s1\<lparr>lastVelocityRef := (lastVelocityRef s1)(deg \<mapsto> vel)\<rparr>;
                  notesToRecord = (if rec then chord else []);
                  isFirstChord = (rec \<and> recStart = 0);
                  s3 = foldl (pressNote deg vel) s2 chord
              in if rec \<and> length notesToRecord > 0
                 then (if isFirstChord
                       then s3\<lparr>store := (store s3)\<lparr>recordingStartTime := pressTime,
                              recordedNotes := map (\<lambda>n. \<lparr>time = 0, ntype = noteOn,
                                 midiNote = Num n, velocity = vel, degree = deg + 1\<rparr>) notesToRecord\<rparr>\<rparr>
                       else s3\<lparr>store := (store s3)\<lparr>recordedNotes := recordedNotes (store s3) @
                              map (\<lambda>n. \<lparr>time = pressTime - recStart, ntype = noteOn,
                                 midiNote = Num n, velocity = vel, degree = deg + 1\<rparr>) notesToRecord\<rparr>\<rparr>)
                 else s3)
           else if currentMode cfg = arpeggiator then
             (let bv = (case lastVelocityRef s1 deg of
                          None \<Rightarrow> 0.7 | Some v \<Rightarrow> if v = 0 then 0.7 else v);
                  h = timerCount s1 + 1;
                  ss = \<lparr>arpDegree = deg, captured = arpSettings cfg,
                        arpNotes = buildArpNotes (arpSettings cfg) chord,
                        baseVelocity = bv, currentNoteIndex = 0, currentPlayingNote = None,
                        noteOffTimeout = None, intervalActive = True\<rparr>;
                  s2 = playNote h dr
                         (s1\<lparr>arpSessions := (arpSessions s1)(h \<mapsto> ss), timerCount := h\<rparr>)
              in s2\<lparr>arpIntervalsRef := (arpIntervalsRef s2)(deg \<mapsto> h),
                     activeNotes := (activeNotes s2)(deg \<mapsto> arpNotes ss)\<rparr>)
           else s1)"

text \<open>The body of \<open>chord.forEach\<close> in \<open>handleButtonUp\<close>.\<close>

definition releaseNote ::
  "bool \<Rightarrow> nat \<Rightarrow> bool \<Rightarrow> real \<Rightarrow> real \<Rightarrow> chord_buttons \<Rightarrow> int \<Rightarrow> chord_buttons" where
  "releaseNote immediate deg rec recStart releaseTime s note =
     (let s1 = (case globalMidiNotesRef s note of
                  None \<Rightarrow> s
                | Some hs \<Rightarrow>
                    let holdingButtons = set_delete deg hs
                    in if length holdingButtons = 0
                       then s\<lparr>engineCalls := engineCalls s @ [NoteOff (Num note) immediate],
                              globalMidiNotesRef := (globalMidiNotesRef s)(note := None)\<rparr>
                       else s\<lparr>globalMidiNotesRef := (globalMidiNotesRef s)(note \<mapsto> holdingButtons)\<rparr>)
      in if rec \<and> recStart > 0
         then record_note \<lparr>time = releaseTime - recStart, ntype = noteOff, midiNote = Num note,
                velocity = 0, degree = deg + 1\<rparr> s1
         else s1)"

text \<open>\<open>handleButtonUp(degree)\<close>; \<open>now\<close> is the clock reading \<open>releaseTime\<close>.\<close>

definition handleButtonUp :: "props \<Rightarrow> nat \<Rightarrow> real \<Rightarrow> chord_buttons \<Rightarrow> chord_buttons" where
  "handleButtonUp cfg deg now s =
     (if \<not> audioEngine cfg then s
      else if deg \<notin> activeButtonsRef s then s
      else
        let s1 = (case arpIntervalsRef s deg of
                    None \<Rightarrow> s
                  | Some h \<Rightarrow>
                      s\<lparr>arpSessions := (case arpSessions s h of
                                          None \<Rightarrow> arpSessions s
                                        | Some ss \<Rightarrow> (arpSessions s)(h \<mapsto> ss\<lparr>intervalActive := False\<rparr>)),
                        arpIntervalsRef := (arpIntervalsRef s)(deg := None)\<rparr>);
            immediate = (currentMode cfg \<noteq> play);
            rec = isRecording (store s1);
            recStart = recordingStartTime (store s1);
            s2 = (case activeNotesRef s1 deg of
                    None \<Rightarrow> s1
                  | Some chord \<Rightarrow> foldl (releaseNote immediate deg rec recStart now) s1 chord)
        in s2\<lparr>activeButtonsRef := activeButtonsRef s2 - {deg},
               activeNotesRef := (activeNotesRef s2)(deg := None),
               activeNotes := (activeNotes s2)(deg := None),
               buttonPressTimeRef := (buttonPressTimeRef s2)(deg := None),
               lastVelocityRef := (lastVelocityRef s2)(deg := None)\<rparr>)"

text \<open>
  The effect \<open>activeNotesRef.current = activeNotes\<close> that runs after a render in which
  the state has changed.
\<close>

definition syncRefs :: "chord_buttons \<Rightarrow> chord_buttons" where
  "syncRefs s = s\<lparr>activeNotesRef := activeNotes s\<rparr>"

text \<open>The component as mounted: nothing held, no timers, an empty log.\<close>

definition mounted :: "sequencer \<Rightarrow> chord_buttons" where
  "mounted sq = \<lparr>activeButtonsRef = {}, activeNotesRef = Map.empty, activeNotes = Map.empty,
     arpIntervalsRef = Map.empty,
     globalMidiNotesRef = Map.empty, buttonPressTimeRef = Map.empty, lastVelocityRef = Map.empty,
     arpSessions = Map.empty, timerCount = 0, store = sq, engineCalls = []\<rparr>"

section \<open>Recording controls: \<open>savePattern\<close> and its neighbours\<close>

datatype save_error = EmptyRecording

text \<open>
  The recorder sees the sequencer store, the store's current synthesis and effects
  configuration, and the name typed by the user.
\<close>

record recorder =
  seq :: sequencer
  current :: parameters
  patternName :: string

text \<open>
  What \<open>savePattern\<close> reads from outside: \<open>Date.now()\<close> as text, twice, and a
  \<open>Math.random()\<close> draw, which lies in \<open>[0, 1)\<close> and so picks one of the six colours.
\<close>

record save_env =
  stamp_id :: string
  stamp_name :: string
  rnd_color :: real

definition colors :: "string list" where
  "colors = [''#ef4444'', ''#f59e0b'', ''#10b981'', ''#3b82f6'', ''#8b5cf6'', ''#ec4899'']"

definition enableRecording :: "sequencer \<Rightarrow> sequencer" where
  "enableRecording sq = sq\<lparr>isRecording := True, recordingStartTime := 0, recordedNotes := []\<rparr>"

definition stopRecording :: "sequencer \<Rightarrow> sequencer" where
  "stopRecording sq = sq\<lparr>isRecording := False, recordingStartTime := 0\<rparr>"

definition discardRecording :: "recorder \<Rightarrow> recorder" where
  "discardRecording r = r\<lparr>seq := (seq r)\<lparr>recordedNotes := []\<rparr>, patternName := []\<rparr>"

text \<open>
  \<open>savePattern\<close> returns nothing in the source; the model returns what it did, the
  pattern it created or \<open>EmptyRecording\<close> for the early return, beside the state it
  leaves. The snapshot's \<open>filter\<close> is \<open>{ ...currentState.synthesis.filter }\<close>: a copy of
  the store's filter object, the empty object when the store has none.
\<close>

definition savePattern :: "save_env \<Rightarrow> recorder \<Rightarrow> (save_error + pattern) \<times> recorder" where
  "savePattern env r =
     (let rn = recordedNotes (seq r)
      in if length rn = 0 then (Inl EmptyRecording, r)
         else
           let lastNoteTime = Max (set (map time rn));
               patternLength = lastNoteTime / 1000 + 0.5;
               i = nat \<lfloor>rnd_color env * 6\<rfloor>;
               currentState = current r;
               p = \<lparr>pattern_id = stamp_id env,
                    pattern_name = (if patternName r = [] then ''Pattern '' @ stamp_name env
                                    else patternName r),
                    pattern_notes = rn,
                    pattern_length = patternLength,
                    color = colors ! i,
                    capturedParameters = Some
                      \<lparr>waveform = waveform currentState,
                       p_adsr = p_adsr currentState,
                       p_filter = Some (case p_filter currentState of
                                          None \<Rightarrow> empty_object | Some f \<Rightarrow> f),
                       p_lfo = p_lfo currentState,
                       detune = detune currentState,
                       p_effects = p_effects currentState\<rparr>\<rparr>
           in (Inr p, r\<lparr>seq := (seq r)\<lparr>patterns := patterns (seq r) @ [p], recordedNotes := []\<rparr>,
                        patternName := []\<rparr>))"

section \<open>Timeline playback\<close>

text \<open>What the playback effect closes over.\<close>

record timeline_props =
  tl_timeline :: "timeline_clip list"
  tl_patterns :: "pattern list"
  bpm :: real
  totalBeats :: real
  isLooping :: bool

text \<open>
  \<open>playbackRef.current\<close>, the effect's \<open>scheduledNotes\<close>, the store's playback fields
  and the engine log. A key of \<open>scheduledNotes\<close> is the text
  \<open>clip.id-time-midiNote-type\<close>; the model keeps its four parts.
\<close>

record playback =
  timelineNotes :: "jsnum list"
  lastTime :: real
  activeClips :: "(string \<times> jsnum list) list"
  hasLooped :: bool
  activeClipsWithParams :: "string list"
  currentParametersClipId :: "string option"
  scheduledNotes :: "(string \<times> real \<times> jsnum \<times> note_type) list"
  playing :: bool
  position :: real
  calls :: "engine_call list"

definition find_pattern :: "timeline_props \<Rightarrow> timeline_clip \<Rightarrow> pattern option" where
  "find_pattern tp clip = find (\<lambda>p. pattern_id p = patternId clip) (tl_patterns tp)"

definition loopEndTime :: "timeline_props \<Rightarrow> real" where
  "loopEndTime tp =
     foldl (\<lambda>acc clip. case find_pattern tp clip of
                          None \<Rightarrow> acc
                        | Some p \<Rightarrow> max acc (startTime clip * 60 / bpm tp + pattern_length p))
       0 (tl_timeline tp)"

definition loopEndBeat :: "timeline_props \<Rightarrow> real" where
  "loopEndBeat tp = (if loopEndTime tp > 0 then loopEndTime tp * bpm tp / 60 else totalBeats tp)"

definition beatDuration :: "timeline_props \<Rightarrow> real" where
  "beatDuration tp = 60 / bpm tp * 1000"

definition loopDurationMs :: "timeline_props \<Rightarrow> real" where
  "loopDurationMs tp = loopEndTime tp * 1000"

text \<open>The remainder operator \<open>%\<close>: the quotient is truncated towards zero.\<close>

definition js_rem :: "real \<Rightarrow> real \<Rightarrow> real" where
  "js_rem x y = x - y * of_int (if 0 \<le> x / y then \<lfloor>x / y\<rfloor> else \<lceil>x / y\<rceil>)"

definition effectiveElapsedMs :: "timeline_props \<Rightarrow> real \<Rightarrow> real" where
  "effectiveElapsedMs tp elapsedMs =
     (if isLooping tp \<and> loopDurationMs tp > 0 then js_rem elapsedMs (loopDurationMs tp)
      else elapsedMs)"

definition waveformMap :: "waveform_type \<Rightarrow> nat" where
  "waveformMap w = (case w of sine \<Rightarrow> 0 | sawtooth \<Rightarrow> 1 | square \<Rightarrow> 2 | triangle \<Rightarrow> 3
                    | fm \<Rightarrow> 4 | piano \<Rightarrow> 5)"

text \<open>
  What a piece of the interval callback leaves behind: it returns, or a \<open>TypeError\<close>
  (a property read on \<open>undefined\<close>) leaves it, and then the whole callback, with the
  effects made so far in place. Nothing catches the error; the interval keeps firing.
\<close>

datatype 'a outcome = Returned 'a | Threw 'a

fun reached :: "'a outcome \<Rightarrow> 'a" where
  "reached (Returned x) = x"
| "reached (Threw x) = x"

fun threw :: "'a outcome \<Rightarrow> bool" where
  "threw (Returned x) = False"
| "threw (Threw x) = True"

text \<open>
  The setter calls that put a configuration on the engine, in the source's order; the
  callback has the same sequence twice, for a pattern's \<open>capturedParameters\<close> and for the
  store. The argument of \<open>setFilterCutoff\<close> reads \<open>filter.cutoff\<close>: without a \<open>filter\<close>
  that read throws, after \<open>setWaveform\<close> and \<open>setADSR\<close> have been called.
\<close>

definition applyParameters :: "parameters \<Rightarrow> engine_call list outcome" where
  "applyParameters ps =
     (let a = p_adsr ps; l = p_lfo ps; e = p_effects ps;
          firstTwo = [SetWaveform (waveformMap (waveform ps)),
                  SetADSR (attack a) (decay a) (sustain a) (release a)]
      in case p_filter ps of
           None \<Rightarrow> Threw firstTwo
         | Some f \<Rightarrow> Returned (firstTwo @
             [SetFilterCutoff (cutoff f),
              SetFilterResonance (resonance f),
              SetFilterMode (filter_mode f),
              SetFilterEnabled (filter_enabled f),
              SetLFORate (lfo_rate l),
              SetLFODepth (lfo_depth l),
              SetLFOWaveform (lfo_waveform l),
              SetLFOToFilter (lfo_enabled l),
              SetDetune (detune ps),
              SetGlideTime (if glide_enabled e then glide_time e else 0),
              SetTremolo (tremolo_enabled e) (tremolo_rate e) (tremolo_depth e),
              SetFlanger (flanger_enabled e) (flanger_rate e) (flanger_depth e)
                (flanger_feedback e) (flanger_mix e),
              SetDelay (delay_enabled e) (delay_time e) (delay_feedback e) (delay_mix e),
              SetReverb (reverb_enabled e) (reverb_size e) (reverb_damping e)]))"

text \<open>\<open>stopPlayback\<close>: it silences through the live pool's \<open>noteOff\<close>.\<close>

definition stopPlayback :: "playback \<Rightarrow> playback" where
  "stopPlayback s = s\<lparr>calls := calls s @ map (\<lambda>n. NoteOff n True) (timelineNotes s),
                       timelineNotes := [], activeClips := [],
                       playing := False, position := 0\<rparr>"

text \<open>The loop-restart block of a tick.\<close>

definition loopRestart :: "playback \<Rightarrow> playback" where
  "loopRestart s = s\<lparr>scheduledNotes := [],
                      calls := calls s @ map TimelineNoteOff (concat (map snd (activeClips s))),
                      activeClips := [], timelineNotes := [],
                      currentParametersClipId := None, activeClipsWithParams := []\<rparr>"

definition restartDetected :: "timeline_props \<Rightarrow> real \<Rightarrow> playback \<Rightarrow> bool" where
  "restartDetected tp elapsedMs s =
     (isLooping tp \<and> loopDurationMs tp > 0 \<and>
      \<lfloor>elapsedMs / loopDurationMs tp\<rfloor> > \<lfloor>lastTime s / loopDurationMs tp\<rfloor>)"

text \<open>
  First sight of an active clip: register it and, maybe, apply its parameters. The
  clip becomes the owner after the last setter; a throw on the way leaves it registered
  and the owner as it was.
\<close>

definition activateClip :: "timeline_clip \<Rightarrow> pattern \<Rightarrow> playback \<Rightarrow> playback outcome" where
  "activateClip clip p s =
     (if map_has (clip_id clip) (activeClips s) then Returned s
      else
        let s1 = s\<lparr>activeClips := map_set (clip_id clip) [] (activeClips s)\<rparr>
        in case capturedParameters p of
             None \<Rightarrow> Returned s1
           | Some params \<Rightarrow>
               if currentParametersClipId s1 \<noteq> Some (clip_id clip)
               then (case applyParameters params of
                       Threw cs \<Rightarrow> Threw (s1\<lparr>calls := calls s1 @ cs\<rparr>)
                     | Returned cs \<Rightarrow>
                         Returned (s1\<lparr>calls := calls s1 @ cs,
                           currentParametersClipId := Some (clip_id clip),
                           activeClipsWithParams := set_add (clip_id clip) (activeClipsWithParams s1)\<rparr>))
               else Returned s1)"

text \<open>The body of \<open>pattern.notes.forEach\<close> for an active clip.\<close>

definition dispatchNote :: "string \<Rightarrow> real \<Rightarrow> playback \<Rightarrow> recorded_note \<Rightarrow> playback" where
  "dispatchNote cid relativeTimeMs s note =
     (let noteKey = (cid, time note, midiNote note, ntype note);
          timeDiff = \<bar>relativeTimeMs - time note\<bar>
      in if timeDiff < 30 \<and> noteKey \<notin> set (scheduledNotes s)
         then
           (let s1 = s\<lparr>scheduledNotes := scheduledNotes s @ [noteKey]\<rparr>
            in case ntype note of
                 noteOn \<Rightarrow>
                   s1\<lparr>calls := (if midiNote note \<in> set (timelineNotes s1)
                                 then calls s1 @ [TimelineNoteOff (midiNote note)]
                                 else calls s1) @ [TimelineNoteOn (midiNote note) (velocity note)],
                      activeClips := (case map_of (activeClips s1) cid of
                                        None \<Rightarrow> activeClips s1
                                      | Some ns \<Rightarrow> map_set cid (set_add (midiNote note) ns)
                                                    (activeClips s1)),
                      timelineNotes := set_add (midiNote note) (timelineNotes s1)\<rparr>
               | noteOff \<Rightarrow>
                   s1\<lparr>calls := calls s1 @ [TimelineNoteOff (midiNote note)],
                      activeClips := (case map_of (activeClips s1) cid of
                                        None \<Rightarrow> activeClips s1
                                      | Some ns \<Rightarrow> map_set cid (set_delete (midiNote note) ns)
                                                    (activeClips s1)),
                      timelineNotes := set_delete (midiNote note) (timelineNotes s1)\<rparr>)
         else s)"

text \<open>
  A clip that is tracked but no longer playing: stop its notes, forget it, and if it
  owns the parameter context put the store's configuration \<open>globals\<close> back on the engine.
  The owner is cleared after the last setter; a throw on the way leaves it in place.
\<close>

definition deactivateClip :: "parameters \<Rightarrow> timeline_clip \<Rightarrow> playback \<Rightarrow> playback outcome" where
  "deactivateClip globals clip s =
     (let activeNotes = (case map_of (activeClips s) (clip_id clip) of
                           None \<Rightarrow> [] | Some ns \<Rightarrow> ns);
          s1 = s\<lparr>calls := calls s @ map TimelineNoteOff activeNotes,
                 timelineNotes := filter (\<lambda>n. n \<notin> set activeNotes) (timelineNotes s),
                 activeClips := map_delete (clip_id clip) (activeClips s),
                 activeClipsWithParams := set_delete (clip_id clip) (activeClipsWithParams s)\<rparr>
      in if currentParametersClipId s1 = Some (clip_id clip)
         then (case applyParameters globals of
                 Threw cs \<Rightarrow> Threw (s1\<lparr>calls := calls s1 @ cs\<rparr>)
               | Returned cs \<Rightarrow>
                   Returned (s1\<lparr>calls := calls s1 @ cs, currentParametersClipId := None\<rparr>))
         else Returned s1)"

text \<open>The body of \<open>timeline.forEach\<close> in a tick.\<close>

definition playClip ::
  "timeline_props \<Rightarrow> parameters \<Rightarrow> real \<Rightarrow> playback \<Rightarrow> timeline_clip \<Rightarrow> playback outcome" where
  "playClip tp globals currentBeat s clip =
     (case find_pattern tp clip of
        None \<Rightarrow> Returned s
      | Some p \<Rightarrow>
          let clipStartBeat = startTime clip;
              clipLengthBeats = pattern_length p * bpm tp / 60;
              clipEndBeat = clipStartBeat + clipLengthBeats;
              isClipPlaying = (currentBeat \<ge> clipStartBeat \<and> currentBeat < clipEndBeat)
          in if isClipPlaying
             then (let relativeTimeMs = (currentBeat - clipStartBeat) * beatDuration tp
                   in case activateClip clip p s of
                        Threw s1 \<Rightarrow> Threw s1
                      | Returned s1 \<Rightarrow>
                          Returned (foldl (dispatchNote (clip_id clip) relativeTimeMs) s1
                                      (pattern_notes p)))
             else if map_has (clip_id clip) (activeClips s) then deactivateClip globals clip s
             else Returned s)"

text \<open>\<open>forEach\<close> with a callback that may throw: the first throw ends the walk.\<close>

fun forEach :: "('s \<Rightarrow> 'a \<Rightarrow> 's outcome) \<Rightarrow> 's \<Rightarrow> 'a list \<Rightarrow> 's outcome" where
  "forEach f s [] = Returned s"
| "forEach f s (x # xs) = (case f s x of Threw s' \<Rightarrow> Threw s' | Returned s' \<Rightarrow> forEach f s' xs)"

text \<open>
  A tick after its loop-restart block: note the time, publish the position, walk the
  clips in timeline order, prune \<open>scheduledNotes\<close>. A throw in the walk skips the rest
  of the walk and the pruning.
\<close>

definition tickBody :: "timeline_props \<Rightarrow> parameters \<Rightarrow> real \<Rightarrow> playback \<Rightarrow> playback outcome" where
  "tickBody tp globals elapsedMs s1 =
     (let currentBeat = effectiveElapsedMs tp elapsedMs / beatDuration tp;
          s2 = s1\<lparr>lastTime := elapsedMs, position := currentBeat\<rparr>
      in case forEach (playClip tp globals currentBeat) s2 (tl_timeline tp) of
           Threw s3 \<Rightarrow> Threw s3
         | Returned s3 \<Rightarrow>
             Returned (if length (scheduledNotes s3) > 1000 then s3\<lparr>scheduledNotes := []\<rparr> else s3))"

text \<open>
  One firing of \<open>playbackInterval\<close> at \<open>elapsedMs = performance.now() - startTime\<close>;
  \<open>globals\<close> is the store's configuration, read when a clip hands the context back. The
  next firing starts from the state \<open>reached\<close>, whether this one returned or threw.
\<close>

definition tick :: "timeline_props \<Rightarrow> parameters \<Rightarrow> real \<Rightarrow> playback \<Rightarrow> playback outcome" where
  "tick tp globals elapsedMs s =
     (if \<not> isLooping tp \<and> elapsedMs \<ge> loopDurationMs tp then Returned (stopPlayback s)
      else tickBody tp globals elapsedMs
             (if restartDetected tp elapsedMs s then loopRestart s else s))"

text \<open>\<open>playbackRef\<close> and the effect's locals when playback starts from a fresh mount.\<close>

definition playbackStart :: "playback" where
  "playbackStart = \<lparr>timelineNotes = [], lastTime = 0, activeClips = [], hasLooped = False,
     activeClipsWithParams = [], currentParametersClipId = None, scheduledNotes = [],
     playing = True, position = 0, calls = []\<rparr>"

section \<open>Observers, runs and the statements of the specification\<close>

text \<open>The pitches of the live note-on calls of a log, in order.\<close>

fun played :: "engine_call list \<Rightarrow> jsnum list" where
  "played [] = []"
| "played (NoteOn p v # cs) = p # played cs"
| "played (c # cs) = played cs"

text \<open>\<open>arpNotes[currentNoteIndex % arpNotes.length]\<close> at cursor \<open>k\<close>.\<close>

definition cursorNote :: "int list \<Rightarrow> nat \<Rightarrow> jsnum" where
  "cursorNote xs k = (if length xs = 0 then Undefined else js_index xs (int k mod int (length xs)))"

text \<open>The interval timer of session \<open>h\<close> fires once for each draw of the list.\<close>

definition arpRun :: "nat \<Rightarrow> draw list \<Rightarrow> chord_buttons \<Rightarrow> chord_buttons" where
  "arpRun h drs s = foldl (\<lambda>s dr. arpStep h dr s) s drs"

text \<open>
  The specification's octave expansion: \<open>octaves\<close> copies of the held chord, each 12
  semitones above the one before it, in ascending order.
\<close>

fun octave_expand_spec :: "nat \<Rightarrow> int list \<Rightarrow> int list" where
  "octave_expand_spec 0 chord = []"
| "octave_expand_spec (Suc k) chord = chord @ map (\<lambda>note. note + 12) (octave_expand_spec k chord)"

text \<open>
  The specification's \<open>updown\<close>: the ascending sequence followed by its reverse, without
  the first copy of the top note (position \<open>n - 1\<close>, repeated at \<open>n\<close>) and without the
  closing copy of the bottom note (position \<open>2n - 1\<close>, repeated at \<open>0\<close> when the
  sequence cycles).
\<close>

definition updown_spec :: "int list \<Rightarrow> int list" where
  "updown_spec asc =
     (let n = length asc; both = asc @ rev asc
      in map (\<lambda>i. both ! i) (filter (\<lambda>i. i \<noteq> n - 1 \<and> i \<noteq> 2 * n - 1) [0..<2 * n]))"

text \<open>
  The holder set of a pitch: the buttons \<open>globalMidiNotesRef\<close> lists for it, none when
  the pitch has no entry.
\<close>

definition holders :: "chord_buttons \<Rightarrow> int \<Rightarrow> nat list" where
  "holders s p = (case globalMidiNotesRef s p of None \<Rightarrow> [] | Some hs \<Rightarrow> hs)"

text \<open>
  What \<open>handleButtonUp\<close> leaves of a pitch's entry when button \<open>d\<close> lets go, and whether
  \<open>d\<close> is the last holder named by an entry.
\<close>

definition released :: "nat \<Rightarrow> nat list option \<Rightarrow> nat list option" where
  "released d e = (case e of None \<Rightarrow> None
                   | Some hs \<Rightarrow> if removeAll d hs = [] then None else Some (removeAll d hs))"

definition lastHolder :: "nat \<Rightarrow> nat list option \<Rightarrow> bool" where
  "lastHolder d e = (case e of None \<Rightarrow> False | Some hs \<Rightarrow> removeAll d hs = [])"

text \<open>No pitch has an entry with an empty holder set.\<close>

definition holders_ok :: "chord_buttons \<Rightarrow> bool" where
  "holders_ok s = (\<forall>p. globalMidiNotesRef s p \<noteq> Some [])"

text \<open>
  Buttons pressed one after the other, each with its event time, clock reading and
  draws; buttons released one after the other, each with its clock reading.
\<close>

definition pressAll ::
  "props \<Rightarrow> (nat \<times> real option \<times> real \<times> draw) list \<Rightarrow> chord_buttons \<Rightarrow> chord_buttons" where
  "pressAll cfg ps s = foldl (\<lambda>s (d, et, now, dr). handleButtonDown cfg d et now dr s) s ps"

definition releaseAll :: "props \<Rightarrow> (nat \<times> real) list \<Rightarrow> chord_buttons \<Rightarrow> chord_buttons" where
  "releaseAll cfg rs s = foldl (\<lambda>s (d, now). handleButtonUp cfg d now s) s rs"





section \<open>Example inputs\<close>

definition sq0 :: sequencer where
  "sq0 = \<lparr>isRecording = False, recordingStartTime = 0, recordedNotes = [], patterns = [],
     timeline = [], isPlaying = False, playbackPosition = 0\<rparr>"

definition dr0 :: draw where
  "dr0 = \<lparr>rnd_note = 0, rnd_velocity = 1 / 2, currentTime = 100\<rparr>"

text \<open>
  Arpeggiator renders: \<open>updown\<close>, full gate, every button a C major triad, over one
  octave and over two.
\<close>

definition arp_cfg :: props where
  "arp_cfg = \<lparr>audioEngine = True, currentMode = arpeggiator,
     arpSettings = \<lparr>arp_pattern = arp_updown, speed = 1, octaves = 1, gate = 1\<rparr>,
     generateChord = (\<lambda>d. [60, 64, 67])\<rparr>"

definition arp_cfg2 :: props where
  "arp_cfg2 = \<lparr>audioEngine = True, currentMode = arpeggiator,
     arpSettings = \<lparr>arp_pattern = arp_updown, speed = 1, octaves = 2, gate = 1\<rparr>,
     generateChord = (\<lambda>d. [60, 64, 67])\<rparr>"

text \<open>
  A play-mode render whose buttons 0, 2 and 5 share pitch 64, and an arpeggiator render
  with a gate below 1.
\<close>

definition triads :: "nat \<Rightarrow> int list" where
  "triads d = (if d = 0 then [60, 64, 67] else if d = 2 then [64, 67, 71]
               else if d = 5 then [57, 60, 64] else [62, 65, 69])"

definition play_cfg :: props where
  "play_cfg = \<lparr>audioEngine = True, currentMode = play,
     arpSettings = \<lparr>arp_pattern = arp_up, speed = 1, octaves = 1, gate = 4 / 5\<rparr>,
     generateChord = triads\<rparr>"

definition gated_cfg :: props where
  "gated_cfg = \<lparr>audioEngine = True, currentMode = arpeggiator,
     arpSettings = \<lparr>arp_pattern = arp_up, speed = 1, octaves = 1, gate = 4 / 5\<rparr>,
     generateChord = (\<lambda>d. [60, 64, 67])\<rparr>"

definition three_down :: "(nat \<times> real option \<times> real \<times> draw) list" where
  "three_down = [(0, None, 10, dr0), (2, Some 20, 21, dr0), (5, None, 30, dr0)]"

definition three_up :: "(nat \<times> real) list" where
  "three_up = [(2, 40), (5, 50), (0, 60)]"

text \<open>Buttons 0 and 2 held in play mode.\<close>

definition two_held :: chord_buttons where
  "two_held = pressAll play_cfg [(0, None, 10, dr0), (2, None, 20, dr0)] (mounted sq0)"

text \<open>
  An arpeggiator run under recording, started at 100 ms with recording armed: the
  second note is played at 225 ms, then the recording is stopped and armed again before
  that note's gate timeout fires.
\<close>

definition dr1 :: draw where
  "dr1 = \<lparr>rnd_note = 0, rnd_velocity = 1 / 2, currentTime = 225\<rparr>"

definition recording_arp :: chord_buttons where
  "recording_arp = handleButtonDown gated_cfg 0 None 100 dr0 (mounted (enableRecording sq0))"

definition rearmed :: chord_buttons where
  "rearmed =
     (let s1 = recording_arp;
          s2 = arpStep 1 dr1 s1
      in s2\<lparr>store := enableRecording (stopRecording (store s2))\<rparr>)"

text \<open>
  The store's default configuration and a variant of it, both without a filter as the
  store is initialised; and what \<open>savePattern\<close> captures of them.
\<close>

definition params0 :: parameters where
  "params0 = \<lparr>waveform = sine,
     p_adsr = \<lparr>attack = 1 / 100, decay = 1 / 5, sustain = 1, release = 3 / 10, preset = None\<rparr>,
     p_filter = None,
     p_lfo = \<lparr>lfo_rate = 1, lfo_depth = 0, lfo_waveform = 0, target = to_amplitude, lfo_enabled = False\<rparr>,
     detune = 0,
     p_effects = \<lparr>glide_enabled = False, glide_time = 0,
       tremolo_enabled = False, tremolo_rate = 5, tremolo_depth = 1 / 2,
       flanger_enabled = False, flanger_rate = 1 / 2, flanger_depth = 5, flanger_feedback = 1 / 2,
       flanger_mix = 1 / 2,
       delay_enabled = False, delay_time = 1 / 2, delay_feedback = 3 / 10, delay_mix = 3 / 10,
       reverb_enabled = False, reverb_size = 1 / 2, reverb_damping = 1 / 2, reverb_mix = 1 / 2,
       bass_enabled = False, bass_level = 1 / 2, stereo_mode = st_stereo\<rparr>\<rparr>"

definition params1 :: parameters where
  "params1 = params0\<lparr>waveform := square, detune := 7\<rparr>"

definition saved0 :: parameters where
  "saved0 = params0\<lparr>p_filter := Some empty_object\<rparr>"

definition saved1 :: parameters where
  "saved1 = params1\<lparr>p_filter := Some empty_object\<rparr>"

definition note_at :: "real \<Rightarrow> note_type \<Rightarrow> int \<Rightarrow> recorded_note" where
  "note_at t k n = \<lparr>time = t, ntype = k, midiNote = Num n,
     velocity = (if k = noteOn then 7 / 10 else 0), degree = 1\<rparr>"

text \<open>One eight-second clip at beat 0, looping, just before the playhead wraps.\<close>

definition pat8 :: pattern where
  "pat8 = \<lparr>pattern_id = ''p1'', pattern_name = ''eight'', pattern_notes = [note_at 0 noteOn 60],
     pattern_length = 8, color = ''#ef4444'', capturedParameters = None\<rparr>"

definition loop_tp :: timeline_props where
  "loop_tp = \<lparr>tl_timeline = [\<lparr>clip_id = ''c1'', patternId = ''p1'', startTime = 0, track = 0\<rparr>],
     tl_patterns = [pat8], bpm = 120, totalBeats = 32, isLooping = True\<rparr>"

definition before_wrap :: playback where
  "before_wrap = \<lparr>timelineNotes = [Num 60], lastTime = 7995, activeClips = [(''c1'', [Num 60])],
     hasLooped = False, activeClipsWithParams = [], currentParametersClipId = None,
     scheduledNotes = [(''c1'', 0, Num 60, noteOn)], playing = True, position = 15.99, calls = []\<rparr>"

text \<open>A timeline without clips.\<close>

definition empty_tp :: timeline_props where
  "empty_tp = \<lparr>tl_timeline = [], tl_patterns = [], bpm = 120, totalBeats = 32, isLooping = True\<rparr>"







text \<open>
  Two overlapping clips whose patterns both carry parameters captured by \<open>savePattern\<close>;
  and the same timeline when the second pattern comes from a generator, its snapshot
  without a filter.
\<close>

definition pat_a :: pattern where
  "pat_a = \<lparr>pattern_id = ''pA'', pattern_name = ''a'', pattern_notes = [],
     pattern_length = 8, color = ''#ef4444'', capturedParameters = Some saved0\<rparr>"

definition pat_b :: pattern where
  "pat_b = \<lparr>pattern_id = ''pB'', pattern_name = ''b'', pattern_notes = [],
     pattern_length = 2, color = ''#10b981'', capturedParameters = Some saved1\<rparr>"


definition clip_a :: timeline_clip where
  "clip_a = \<lparr>clip_id = ''cA'', patternId = ''pA'', startTime = 0, track = 0\<rparr>"

definition clip_b :: timeline_clip where
  "clip_b = \<lparr>clip_id = ''cB'', patternId = ''pB'', startTime = 2, track = 1\<rparr>"

definition overlap_tp :: timeline_props where
  "overlap_tp = \<lparr>tl_timeline = [clip_a, clip_b],
     tl_patterns = [pat_a, pat_b], bpm = 120, totalBeats = 32, isLooping = True\<rparr>"


text \<open>A recording of two notes, and the recorder holding a given buffer.\<close>

definition rec_notes :: "recorded_note list" where
  "rec_notes = [note_at 0 noteOn 60, note_at 0 noteOn 64, note_at 1500 noteOff 60,
                note_at 1400 noteOff 64]"

definition recorder0 :: "recorded_note list \<Rightarrow> recorder" where
  "recorder0 rn = \<lparr>seq = sq0\<lparr>recordedNotes := rn\<rparr>, current = params0, patternName = ''riff''\<rparr>"

definition env0 :: save_env where
  "env0 = \<lparr>stamp_id = ''1700000000000'', stamp_name = ''1700000000000'', rnd_color = 1 / 2\<rparr>"

section \<open>Properties\<close>

lemma js_index_in_range: "i < length xs \<Longrightarrow> js_index xs (int i) = Num (xs ! i)"
  by (simp add: js_index_def)

subsection \<open>The arpeggiator's note sequence\<close>

lemma map_nth_upt: "b \<le> length xs \<Longrightarrow> map (\<lambda>i. xs ! i) [a..<b] = drop a (take b xs)"
  by (rule nth_equalityI) auto

lemma filter_upt_all: "(\<And>i. a \<le> i \<Longrightarrow> i < b \<Longrightarrow> P i) \<Longrightarrow> filter P [a..<b] = [a..<b]"
  by (rule filter_True) auto

lemma upt_split4: "[0..<2 * Suc m] = [0..<m] @ [m] @ [Suc m..<Suc (2 * m)] @ [Suc (2 * m)]"
proof -
  have "[0..<Suc (2 * m)] = [0..<m] @ [m..<Suc (2 * m)]"
    using upt_add_eq_append [of 0 m "Suc m"] by (simp add: mult_2)
  moreover have "[m..<Suc (2 * m)] = m # [Suc m..<Suc (2 * m)]"
    by (rule upt_conv_Cons) simp
  ultimately show ?thesis by simp
qed

lemma updown_code_eq_spec: "butlast asc @ butlast (rev asc) = updown_spec asc"
proof (cases "length asc")
  case 0
  then show ?thesis by (simp add: updown_spec_def)
next
  case (Suc m)
  define both where "both = asc @ rev asc"
  let ?P = "\<lambda>i. i \<noteq> m \<and> i \<noteq> Suc (2 * m)"
  have f1: "filter ?P [0..<m] = [0..<m]"
    by (rule filter_upt_all) auto
  have f2: "filter ?P [Suc m..<Suc (2 * m)] = [Suc m..<Suc (2 * m)]"
    by (rule filter_upt_all) auto
  have "filter ?P [0..<2 * Suc m] = [0..<m] @ [Suc m..<Suc (2 * m)]"
    unfolding upt_split4 filter_append f1 f2 by simp
  then have "updown_spec asc =
      map (\<lambda>i. both ! i) [0..<m] @ map (\<lambda>i. both ! i) [Suc m..<Suc (2 * m)]"
    by (simp add: updown_spec_def Suc both_def Let_def del: upt_Suc)
  moreover have "map (\<lambda>i. both ! i) [0..<m] = drop 0 (take m both)"
    by (rule map_nth_upt) (simp add: both_def Suc)
  moreover have "map (\<lambda>i. both ! i) [Suc m..<Suc (2 * m)] = drop (Suc m) (take (Suc (2 * m)) both)"
    by (rule map_nth_upt) (simp add: both_def Suc)
  ultimately show ?thesis
    by (simp add: both_def Suc butlast_conv_take del: butlast_rev)
qed

lemma played_append: "played (xs @ ys) = played xs @ played ys"
  by (induction xs rule: played.induct) auto

lemma arpStep_cursor:
  assumes "arpSessions s h = Some ss" and "intervalActive ss"
      and "arp_pattern (captured ss) \<noteq> arp_random"
  shows "\<exists>ss'. arpSessions (arpStep h dr s) h = Some ss' \<and> intervalActive ss' \<and>
           captured ss' = captured ss \<and>
           arpNotes ss' = arpNotes ss \<and> currentNoteIndex ss' = Suc (currentNoteIndex ss) \<and>
           played (engineCalls (arpStep h dr s)) =
             played (engineCalls s) @ [cursorNote (arpNotes ss) (currentNoteIndex ss)]"
  using assms
  by (auto simp: arpStep_def playNote_def Let_def cursorNote_def played_append split: option.splits)

lemma arpRun_cursor:
  "arpSessions s h = Some ss \<Longrightarrow> intervalActive ss \<Longrightarrow>
   arp_pattern (captured ss) \<noteq> arp_random \<Longrightarrow>
   played (engineCalls (arpRun h drs s)) =
     played (engineCalls s) @
     map (cursorNote (arpNotes ss)) [currentNoteIndex ss..<currentNoteIndex ss + length drs]"
proof (induction drs arbitrary: s ss)
  case Nil
  then show ?case by (simp add: arpRun_def)
next
  case (Cons dr drs)
  from arpStep_cursor [OF Cons.prems, of dr]
  obtain ss' where st: "arpSessions (arpStep h dr s) h = Some ss'" "intervalActive ss'"
      "captured ss' = captured ss"
      "arpNotes ss' = arpNotes ss" "currentNoteIndex ss' = Suc (currentNoteIndex ss)"
      "played (engineCalls (arpStep h dr s)) =
         played (engineCalls s) @ [cursorNote (arpNotes ss) (currentNoteIndex ss)]"
    by blast
  have r: "arp_pattern (captured ss') \<noteq> arp_random" using st(3) Cons.prems(3) by simp
  have "arpRun h (dr # drs) s = arpRun h drs (arpStep h dr s)"
    by (simp add: arpRun_def)
  moreover have "[currentNoteIndex ss..<currentNoteIndex ss + length (dr # drs)] =
      currentNoteIndex ss # [Suc (currentNoteIndex ss)..<Suc (currentNoteIndex ss) + length drs]"
    by (simp add: upt_conv_Cons del: upt_Suc)
  ultimately show ?case
    using Cons.IH [OF st(1,2) r] st(4,5,6) by (simp del: upt_Suc)
qed

lemma down_arp:
  assumes "audioEngine cfg" and "currentMode cfg = arpeggiator" and "d \<notin> activeButtonsRef s"
  shows "\<exists>ss. arpSessions (handleButtonDown cfg d et now dr s) (Suc (timerCount s)) = Some ss \<and>
           intervalActive ss \<and> captured ss = arpSettings cfg \<and>
           arpNotes ss = buildArpNotes (arpSettings cfg) (generateChord cfg d) \<and>
           currentNoteIndex ss = (if arp_pattern (arpSettings cfg) = arp_random then 0 else 1)"
    and "arp_pattern (arpSettings cfg) \<noteq> arp_random \<Longrightarrow>
         played (engineCalls (handleButtonDown cfg d et now dr s)) =
           played (engineCalls s) @
           [cursorNote (buildArpNotes (arpSettings cfg) (generateChord cfg d)) 0]"
  using assms
  by (simp_all add: handleButtonDown_def playNote_def Let_def cursorNote_def played_append)

lemma extendChord_Suc:
  "extendChord (Suc k) chord = chord @ map (\<lambda>note. note + 12) (extendChord k chord)"
proof -
  let ?f = "\<lambda>oct. map (\<lambda>note. note + int oct * 12) chord"
  have s: "[0..<Suc k] = 0 # map Suc [0..<k]"
    by (simp add: upt_conv_Cons map_Suc_upt del: upt_Suc)
  have c: "?f (Suc oct) = map (\<lambda>note. note + 12) (?f oct)" for oct
    by (simp add: algebra_simps)
  have "concat (map ?f (map Suc [0..<k])) = map (\<lambda>note. note + 12) (concat (map ?f [0..<k]))"
    unfolding map_concat map_map comp_def c ..
  then show ?thesis
    unfolding extendChord_def s by simp
qed

lemma extendChord_spec: "extendChord octs chord = octave_expand_spec octs chord"
proof (induction octs)
  case 0
  then show ?case by (simp add: extendChord_def)
next
  case (Suc k)
  then show ?case by (simp add: extendChord_Suc)
qed

text \<open>
  C7. With the \<open>updown\<close> pattern, the note sequence of the run a button starts is, for
  every chord and every number of octaves, the octave expansion of the chord (\<open>octaves\<close>
  copies, each 12 semitones above the one before) followed by its reverse with both
  repeated end notes removed; and the notes the run plays, from the press on and at
  every step of its interval, are the entries \<open>0, 1, 2, ...\<close> of that sequence, taken
  modulo its length.
\<close>

theorem arp_updown_sequence:
  assumes "audioEngine cfg" and "currentMode cfg = arpeggiator" and "d \<notin> activeButtonsRef s"
      and "arp_pattern (arpSettings cfg) = arp_updown"
  shows "buildArpNotes (arpSettings cfg) (generateChord cfg d) =
           updown_spec (octave_expand_spec (octaves (arpSettings cfg)) (generateChord cfg d)) \<and>
         played (engineCalls (arpRun (Suc (timerCount s)) drs (handleButtonDown cfg d et now dr s))) =
           played (engineCalls s) @
           map (cursorNote (updown_spec (octave_expand_spec (octaves (arpSettings cfg))
                                           (generateChord cfg d))))
             [0..<Suc (length drs)]"
proof -
  let ?xs = "buildArpNotes (arpSettings cfg) (generateChord cfg d)"
  let ?s1 = "handleButtonDown cfg d et now dr s"
  have eq: "?xs = updown_spec (octave_expand_spec (octaves (arpSettings cfg)) (generateChord cfg d))"
    using assms(4)
    by (simp add: buildArpNotes_def Let_def updown_code_eq_spec extendChord_spec del: butlast_rev)
  have nr: "arp_pattern (arpSettings cfg) \<noteq> arp_random" using assms(4) by simp
  obtain ss where ss: "arpSessions ?s1 (Suc (timerCount s)) = Some ss" "intervalActive ss"
      "captured ss = arpSettings cfg" "arpNotes ss = ?xs" "currentNoteIndex ss = 1"
    using down_arp(1) [OF assms(1,2,3), of et now dr] nr by auto
  have first: "played (engineCalls ?s1) = played (engineCalls s) @ [cursorNote ?xs 0]"
    using down_arp(2) [OF assms(1,2,3) nr] .
  have "arp_pattern (captured ss) \<noteq> arp_random" using ss(3) nr by simp
  from arpRun_cursor [OF ss(1,2) this, of drs]
  have "played (engineCalls (arpRun (Suc (timerCount s)) drs ?s1)) =
      played (engineCalls s) @ cursorNote ?xs 0 # map (cursorNote ?xs) [1..<Suc (length drs)]"
    using first ss(4,5) by simp
  moreover have "[0..<Suc (length drs)] = 0 # [1..<Suc (length drs)]"
    by (simp add: upt_conv_Cons del: upt_Suc)
  ultimately show ?thesis using eq by (simp del: upt_Suc)
qed

lemma arp_down_calls:
  "engineCalls (handleButtonDown arp_cfg 0 None 100 dr0 (mounted sq0)) = [NoteOn (Num 60) (7 / 10)]"
  by (simp add: handleButtonDown_def arp_cfg_def mounted_def sq0_def dr0_def playNote_def Let_def
      buildArpNotes_def extendChord_def js_index_def)

lemma updown_spec_triad: "updown_spec (octave_expand_spec 1 [60, 64, 67]) = [60, 64, 67, 64]"
  by code_simp

lemma updown_spec_triad2:
  "updown_spec (octave_expand_spec 2 [60, 64, 67]) = [60, 64, 67, 72, 76, 79, 76, 72, 67, 64]"
  by code_simp

lemma cursor_triad:
  "map (cursorNote [60, 64, 67, 64]) [0..<Suc (length [d1, d2, d3, d4, d5])] =
     [Num 60, Num 64, Num 67, Num 64, Num 60, Num 64]"
  by (simp add: cursorNote_def js_index_def upt_conv_Cons del: upt_Suc)

lemma cursor_triad2:
  "map (cursorNote [60, 64, 67, 72, 76, 79, 76, 72, 67, 64])
     [0..<Suc (length [d1, d2, d3, d4, d5, d6, d7, d8, d9, d10, d11])] =
     [Num 60, Num 64, Num 67, Num 72, Num 76, Num 79, Num 76, Num 72, Num 67, Num 64,
      Num 60, Num 64]"
  by (simp add: cursorNote_def js_index_def upt_conv_Cons del: upt_Suc)

text \<open>
  C7, witness: chord \<open>[60, 64, 67]\<close>. Over one octave the sequence is \<open>[60, 64, 67, 64]\<close>
  and the press followed by five steps plays 60, 64, 67, 64, 60, 64. Over two octaves the
  sequence is \<open>[60, 64, 67, 72, 76, 79, 76, 72, 67, 64]\<close> and the press followed by eleven
  steps plays it once and starts over with 60, 64.
\<close>

theorem arp_updown_sequence_witness:
  "buildArpNotes (arpSettings arp_cfg) [60, 64, 67] = [60, 64, 67, 64] \<and>
   played (engineCalls (arpRun 1 [dr0, dr0, dr0, dr0, dr0]
       (handleButtonDown arp_cfg 0 None 100 dr0 (mounted sq0)))) =
     [Num 60, Num 64, Num 67, Num 64, Num 60, Num 64] \<and>
   buildArpNotes (arpSettings arp_cfg2) [60, 64, 67] = [60, 64, 67, 72, 76, 79, 76, 72, 67, 64] \<and>
   played (engineCalls (arpRun 1 [dr0, dr0, dr0, dr0, dr0, dr0, dr0, dr0, dr0, dr0, dr0]
       (handleButtonDown arp_cfg2 0 None 100 dr0 (mounted sq0)))) =
     [Num 60, Num 64, Num 67, Num 72, Num 76, Num 79, Num 76, Num 72, Num 67, Num 64,
      Num 60, Num 64]"
proof -
  have a: "audioEngine arp_cfg" "currentMode arp_cfg = arpeggiator"
      "0 \<notin> activeButtonsRef (mounted sq0)" "arp_pattern (arpSettings arp_cfg) = arp_updown"
    by (simp_all add: arp_cfg_def mounted_def)
  have a2: "audioEngine arp_cfg2" "currentMode arp_cfg2 = arpeggiator"
      "0 \<notin> activeButtonsRef (mounted sq0)" "arp_pattern (arpSettings arp_cfg2) = arp_updown"
    by (simp_all add: arp_cfg2_def mounted_def)
  have g: "generateChord arp_cfg 0 = [60, 64, 67]" "generateChord arp_cfg2 0 = [60, 64, 67]"
    by (simp_all add: arp_cfg_def arp_cfg2_def)
  have e: "octaves (arpSettings arp_cfg) = 1" "octaves (arpSettings arp_cfg2) = 2"
    by (simp_all add: arp_cfg_def arp_cfg2_def)
  have t: "Suc (timerCount (mounted sq0)) = 1" "played (engineCalls (mounted sq0)) = []"
    by (simp_all add: mounted_def)
  note h = arp_updown_sequence [OF a, of "[dr0, dr0, dr0, dr0, dr0]" None 100 dr0,
      unfolded g e t updown_spec_triad cursor_triad]
  note h2 = arp_updown_sequence [OF a2,
      of "[dr0, dr0, dr0, dr0, dr0, dr0, dr0, dr0, dr0, dr0, dr0]" None 100 dr0,
      unfolded g e t updown_spec_triad2 cursor_triad2]
  show ?thesis using h h2 by simp
qed

subsection \<open>Voice ownership: holder sets and the engine\<close>

lemma note_ons_append: "note_ons p (xs @ ys) = note_ons p xs + note_ons p ys"
  by (simp add: note_ons_def)

lemma note_offs_append: "note_offs p (xs @ ys) = note_offs p xs + note_offs p ys"
  by (simp add: note_offs_def)

lemma set_add_idem: "set_add d (set_add d xs) = set_add d xs"
  by (simp add: set_add_def)

lemma set_add_nonempty: "set_add d xs \<noteq> []"
  by (auto simp: set_add_def)

lemma set_set_add: "set (set_add d xs) = insert d (set xs)"
  by (auto simp: set_add_def)

lemma pressNote_gm:
  "globalMidiNotesRef (pressNote d v s n) = (globalMidiNotesRef s)(n \<mapsto> set_add d (holders s n))"
  by (simp add: pressNote_def holders_def Let_def)

lemma pressNote_calls:
  "engineCalls (pressNote d v s n) =
     engineCalls s @ (if holders s n = [] then [NoteOn (Num n) v] else [])"
  by (simp add: pressNote_def holders_def Let_def)

lemma pressNote_frame:
  "store (pressNote d v s n) = store s"
  "activeButtonsRef (pressNote d v s n) = activeButtonsRef s"
  "activeNotesRef (pressNote d v s n) = activeNotesRef s"
  "arpIntervalsRef (pressNote d v s n) = arpIntervalsRef s"
  "arpSessions (pressNote d v s n) = arpSessions s"
  "lastVelocityRef (pressNote d v s n) = lastVelocityRef s"
  "buttonPressTimeRef (pressNote d v s n) = buttonPressTimeRef s"
  "timerCount (pressNote d v s n) = timerCount s"
  by (simp_all add: pressNote_def Let_def)

lemma pressNote_holders:
  "holders (pressNote d v s n) p = (if p = n then set_add d (holders s n) else holders s p)"
  by (simp add: holders_def pressNote_gm)

lemma press_fold_frame:
  "store (foldl (pressNote d v) s chord) = store s"
  "activeButtonsRef (foldl (pressNote d v) s chord) = activeButtonsRef s"
  "activeNotesRef (foldl (pressNote d v) s chord) = activeNotesRef s"
  "arpIntervalsRef (foldl (pressNote d v) s chord) = arpIntervalsRef s"
  "arpSessions (foldl (pressNote d v) s chord) = arpSessions s"
  "lastVelocityRef (foldl (pressNote d v) s chord) = lastVelocityRef s"
  "buttonPressTimeRef (foldl (pressNote d v) s chord) = buttonPressTimeRef s"
  "timerCount (foldl (pressNote d v) s chord) = timerCount s"
  by (induction chord arbitrary: s) (simp_all add: pressNote_frame)

lemma press_fold_gm:
  "globalMidiNotesRef (foldl (pressNote d v) s chord) p =
     (if p \<in> set chord then Some (set_add d (holders s p)) else globalMidiNotesRef s p)"
proof (induction chord arbitrary: s)
  case Nil
  then show ?case by simp
next
  case (Cons n ns)
  show ?case
    by (simp add: Cons.IH pressNote_holders set_add_idem pressNote_gm)
qed

lemma press_fold_note_ons:
  "note_ons (Num p) (engineCalls (foldl (pressNote d v) s chord)) =
     note_ons (Num p) (engineCalls s) + (if p \<in> set chord \<and> holders s p = [] then 1 else 0)"
proof (induction chord arbitrary: s)
  case Nil
  then show ?case by simp
next
  case (Cons n ns)
  show ?case
    by (simp add: Cons.IH pressNote_holders pressNote_calls note_ons_append set_add_nonempty)
       (simp add: note_ons_def)
qed

lemma press_fold_note_offs:
  "note_offs q (engineCalls (foldl (pressNote d v) s chord)) = note_offs q (engineCalls s)"
proof (induction chord arbitrary: s)
  case Nil
  then show ?case by simp
next
  case (Cons n ns)
  show ?case
    by (simp add: Cons.IH pressNote_calls note_offs_append) (simp add: note_offs_def)
qed

lemma released_idem: "released d (released d e) = released d e"
  by (simp add: released_def split: option.splits)

lemma lastHolder_released: "\<not> lastHolder d (released d e)"
  by (simp add: released_def lastHolder_def split: option.splits)

lemma releaseNote_gm:
  "globalMidiNotesRef (releaseNote im d rec rs t s n) =
     (globalMidiNotesRef s)(n := released d (globalMidiNotesRef s n))"
  by (auto simp: releaseNote_def released_def set_delete_def record_note_def Let_def
      split: option.splits)

lemma releaseNote_calls:
  "engineCalls (releaseNote im d rec rs t s n) =
     engineCalls s @ (if lastHolder d (globalMidiNotesRef s n) then [NoteOff (Num n) im] else [])"
  by (auto simp: releaseNote_def lastHolder_def set_delete_def record_note_def Let_def
      split: option.splits)

lemma releaseNote_frame:
  "activeButtonsRef (releaseNote im d rec rs t s n) = activeButtonsRef s"
  "activeNotesRef (releaseNote im d rec rs t s n) = activeNotesRef s"
  "arpIntervalsRef (releaseNote im d rec rs t s n) = arpIntervalsRef s"
  "arpSessions (releaseNote im d rec rs t s n) = arpSessions s"
  "lastVelocityRef (releaseNote im d rec rs t s n) = lastVelocityRef s"
  "buttonPressTimeRef (releaseNote im d rec rs t s n) = buttonPressTimeRef s"
  "timerCount (releaseNote im d rec rs t s n) = timerCount s"
  by (auto simp: releaseNote_def record_note_def Let_def split: option.splits)

lemma releaseNote_store:
  "\<not> (rec \<and> rs > 0) \<Longrightarrow> store (releaseNote im d rec rs t s n) = store s"
  by (auto simp: releaseNote_def Let_def split: option.splits)

lemma release_fold_frame:
  "activeButtonsRef (foldl (releaseNote im d rec rs t) s chord) = activeButtonsRef s"
  "activeNotesRef (foldl (releaseNote im d rec rs t) s chord) = activeNotesRef s"
  "arpIntervalsRef (foldl (releaseNote im d rec rs t) s chord) = arpIntervalsRef s"
  "arpSessions (foldl (releaseNote im d rec rs t) s chord) = arpSessions s"
  "lastVelocityRef (foldl (releaseNote im d rec rs t) s chord) = lastVelocityRef s"
  "buttonPressTimeRef (foldl (releaseNote im d rec rs t) s chord) = buttonPressTimeRef s"
  "timerCount (foldl (releaseNote im d rec rs t) s chord) = timerCount s"
  by (induction chord arbitrary: s) (simp_all add: releaseNote_frame)

lemma release_fold_store:
  "\<not> (rec \<and> rs > 0) \<Longrightarrow> store (foldl (releaseNote im d rec rs t) s chord) = store s"
  by (induction chord arbitrary: s) (simp_all add: releaseNote_store)

lemma release_fold_gm:
  "globalMidiNotesRef (foldl (releaseNote im d rec rs t) s chord) p =
     (if p \<in> set chord then released d (globalMidiNotesRef s p) else globalMidiNotesRef s p)"
proof (induction chord arbitrary: s)
  case Nil
  then show ?case by simp
next
  case (Cons n ns)
  show ?case by (simp add: Cons.IH releaseNote_gm released_idem)
qed

lemma release_fold_note_offs:
  "note_offs (Num p) (engineCalls (foldl (releaseNote im d rec rs t) s chord)) =
     note_offs (Num p) (engineCalls s) +
     (if p \<in> set chord \<and> lastHolder d (globalMidiNotesRef s p) then 1 else 0)"
proof (induction chord arbitrary: s)
  case Nil
  then show ?case by simp
next
  case (Cons n ns)
  show ?case
    by (simp add: Cons.IH releaseNote_gm releaseNote_calls note_offs_append lastHolder_released)
       (simp add: note_offs_def)
qed

lemma release_fold_note_ons:
  "note_ons q (engineCalls (foldl (releaseNote im d rec rs t) s chord)) = note_ons q (engineCalls s)"
proof (induction chord arbitrary: s)
  case Nil
  then show ?case by simp
next
  case (Cons n ns)
  show ?case
    by (simp add: Cons.IH releaseNote_calls note_ons_append) (simp add: note_ons_def)
qed

lemma down_play:
  assumes "audioEngine cfg" and "currentMode cfg = play" and "d \<notin> activeButtonsRef s"
  shows "globalMidiNotesRef (handleButtonDown cfg d et now dr s) p =
           (if p \<in> set (generateChord cfg d) then Some (set_add d (holders s p))
            else globalMidiNotesRef s p)"
    and "note_ons (Num p) (engineCalls (handleButtonDown cfg d et now dr s)) =
           note_ons (Num p) (engineCalls s) +
           (if p \<in> set (generateChord cfg d) \<and> holders s p = [] then 1 else 0)"
    and "note_offs q (engineCalls (handleButtonDown cfg d et now dr s)) = note_offs q (engineCalls s)"
    and "activeButtonsRef (handleButtonDown cfg d et now dr s) = insert d (activeButtonsRef s)"
    and "activeNotesRef (handleButtonDown cfg d et now dr s) =
           (activeNotesRef s)(d \<mapsto> generateChord cfg d)"
  using assms
  by (simp_all add: handleButtonDown_def Let_def press_fold_gm press_fold_note_ons
      press_fold_note_offs press_fold_frame holders_def)

lemma up_active:
  assumes "audioEngine cfg" and "d \<in> activeButtonsRef s" and "activeNotesRef s d = Some chord"
  shows "globalMidiNotesRef (handleButtonUp cfg d now s) p =
           (if p \<in> set chord then released d (globalMidiNotesRef s p) else globalMidiNotesRef s p)"
    and "note_offs (Num p) (engineCalls (handleButtonUp cfg d now s)) =
           note_offs (Num p) (engineCalls s) +
           (if p \<in> set chord \<and> lastHolder d (globalMidiNotesRef s p) then 1 else 0)"
    and "note_ons q (engineCalls (handleButtonUp cfg d now s)) = note_ons q (engineCalls s)"
    and "activeButtonsRef (handleButtonUp cfg d now s) = activeButtonsRef s - {d}"
    and "activeNotesRef (handleButtonUp cfg d now s) = (activeNotesRef s)(d := None)"
  using assms
  by (simp_all add: handleButtonUp_def Let_def release_fold_gm release_fold_note_offs
      release_fold_note_ons release_fold_frame split: option.splits)

lemma up_inactive: "d \<notin> activeButtonsRef s \<Longrightarrow> handleButtonUp cfg d now s = s"
  by (simp add: handleButtonUp_def)

lemma up_deactivates: "audioEngine cfg \<Longrightarrow> d \<notin> activeButtonsRef (handleButtonUp cfg d now s)"
  by (simp add: handleButtonUp_def Let_def release_fold_frame split: option.splits)

lemma up_no_engine: "\<not> audioEngine cfg \<Longrightarrow> handleButtonUp cfg d now s = s"
  by (simp add: handleButtonUp_def)

lemma up_note_offs_le:
  "note_offs (Num p) (engineCalls (handleButtonUp cfg d now s)) \<le> Suc (note_offs (Num p) (engineCalls s))"
proof (cases "audioEngine cfg \<and> d \<in> activeButtonsRef s")
  case False
  then show ?thesis by (auto simp: handleButtonUp_def)
next
  case True
  show ?thesis
  proof (cases "activeNotesRef s d")
    case None
    with True show ?thesis
      by (simp add: handleButtonUp_def Let_def split: option.splits)
  next
    case (Some chord)
    with True up_active(2) [of cfg d s chord p now] show ?thesis by simp
  qed
qed

lemma holders_released:
  "(case released d e of None \<Rightarrow> [] | Some hs \<Rightarrow> hs) =
     removeAll d (case e of None \<Rightarrow> [] | Some hs \<Rightarrow> hs)"
  by (simp add: released_def split: option.splits)

lemma released_not_empty: "released d e \<noteq> Some []"
  by (simp add: released_def split: option.splits)

lemma removeAll_empty_iff: "removeAll d xs = [] \<longleftrightarrow> set xs \<subseteq> {d}"
  by (induction xs) auto

lemma lastHolder_iff:
  "e \<noteq> Some [] \<Longrightarrow>
   lastHolder d e = ((case e of None \<Rightarrow> [] | Some hs \<Rightarrow> hs) \<noteq> [] \<and>
                     set (case e of None \<Rightarrow> [] | Some hs \<Rightarrow> hs) \<subseteq> {d})"
  by (auto simp: lastHolder_def removeAll_empty_iff split: option.splits)

lemma last_release_count:
  "(if H \<noteq> [] \<and> set H \<subseteq> {d} then 1 else 0) +
   (if removeAll d H \<noteq> [] \<and> set (removeAll d H) \<subseteq> R then 1 else 0) =
   (if H \<noteq> [] \<and> set H \<subseteq> insert d R then 1 else (0::nat))"
proof (cases "set H \<subseteq> {d}")
  case True
  then have "removeAll d H = []" by (simp add: removeAll_empty_iff)
  moreover have "set H \<subseteq> insert d R" using True by blast
  ultimately show ?thesis using True by simp
next
  case False
  then have ne: "removeAll d H \<noteq> []" "H \<noteq> []" by (auto simp: removeAll_empty_iff)
  have "(set (removeAll d H) \<subseteq> R) = (set H \<subseteq> insert d R)" by auto
  then show ?thesis using False ne by simp
qed

lemma pressAll_Cons:
  "pressAll cfg ((d, et, now, dr) # ps) s = pressAll cfg ps (handleButtonDown cfg d et now dr s)"
  by (simp add: pressAll_def)

lemma releaseAll_Cons:
  "releaseAll cfg ((d, now) # rs) s = releaseAll cfg rs (handleButtonUp cfg d now s)"
  by (simp add: releaseAll_def)

lemma press_phase:
  assumes "audioEngine cfg" and "currentMode cfg = play"
  shows "distinct (map fst ps) \<Longrightarrow> fst ` set ps \<inter> activeButtonsRef s = {} \<Longrightarrow>
         \<forall>d \<in> fst ` set ps. P \<in> set (generateChord cfg d) \<Longrightarrow>
         set (holders (pressAll cfg ps s) P) = set (holders s P) \<union> fst ` set ps \<and>
         (globalMidiNotesRef s P \<noteq> Some [] \<longrightarrow> globalMidiNotesRef (pressAll cfg ps s) P \<noteq> Some []) \<and>
         activeButtonsRef (pressAll cfg ps s) = activeButtonsRef s \<union> fst ` set ps \<and>
         (\<forall>d \<in> fst ` set ps. activeNotesRef (pressAll cfg ps s) d = Some (generateChord cfg d)) \<and>
         (\<forall>d. d \<notin> fst ` set ps \<longrightarrow> activeNotesRef (pressAll cfg ps s) d = activeNotesRef s d) \<and>
         note_ons (Num P) (engineCalls (pressAll cfg ps s)) =
           note_ons (Num P) (engineCalls s) + (if ps \<noteq> [] \<and> holders s P = [] then 1 else 0) \<and>
         note_offs q (engineCalls (pressAll cfg ps s)) = note_offs q (engineCalls s)"
proof (induction ps arbitrary: s)
  case Nil
  then show ?case by (simp add: pressAll_def)
next
  case (Cons a ps)
  obtain d et now dr where a: "a = (d, et, now, dr)" by (cases a) auto
  let ?s1 = "handleButtonDown cfg d et now dr s"
  have dn: "d \<notin> activeButtonsRef s" "d \<notin> fst ` set ps" "P \<in> set (generateChord cfg d)"
    using Cons.prems a by auto
  note st = down_play [OF assms dn(1), where et = et and now = now and dr = dr]
  have h1: "holders ?s1 P = set_add d (holders s P)"
    using st(1) [of P] dn(3) by (simp add: holders_def)
  have g1: "globalMidiNotesRef ?s1 P \<noteq> Some []"
    using st(1) [of P] dn(3) by (simp add: set_add_nonempty)
  have p1: "distinct (map fst ps)" "fst ` set ps \<inter> activeButtonsRef ?s1 = {}"
      "\<forall>d \<in> fst ` set ps. P \<in> set (generateChord cfg d)"
    using Cons.prems a dn st(4) by auto
  note ih = Cons.IH [OF p1]
  have n1: "note_ons (Num P) (engineCalls ?s1) =
      note_ons (Num P) (engineCalls s) + (if holders s P = [] then 1 else 0)"
    using st(2) [of P] dn(3) by simp
  let ?f = "pressAll cfg ps ?s1"
  have i1: "set (holders ?f P) = set (holders ?s1 P) \<union> fst ` set ps" using ih by blast
  have i2: "globalMidiNotesRef ?f P \<noteq> Some []" using ih g1 by blast
  have i3: "activeButtonsRef ?f = activeButtonsRef ?s1 \<union> fst ` set ps" using ih by blast
  have i4: "\<forall>d \<in> fst ` set ps. activeNotesRef ?f d = Some (generateChord cfg d)"
    using ih by blast
  have i5: "\<forall>d. d \<notin> fst ` set ps \<longrightarrow> activeNotesRef ?f d = activeNotesRef ?s1 d"
    using ih by blast
  have i6: "note_ons (Num P) (engineCalls ?f) =
      note_ons (Num P) (engineCalls ?s1) + (if ps \<noteq> [] \<and> holders ?s1 P = [] then 1 else 0)"
    using ih by blast
  have i7: "note_offs q (engineCalls ?f) = note_offs q (engineCalls ?s1)" using ih by blast
  have c1: "set (holders ?f P) = set (holders s P) \<union> fst ` set ((d, et, now, dr) # ps)"
    unfolding i1 h1 by (simp add: set_set_add)
  have c3: "activeButtonsRef ?f = activeButtonsRef s \<union> fst ` set ((d, et, now, dr) # ps)"
    unfolding i3 st(4) by simp
  have c4: "\<forall>d' \<in> fst ` set ((d, et, now, dr) # ps). activeNotesRef ?f d' = Some (generateChord cfg d')"
    using i4 i5 dn(2) st(5) by simp
  have c5: "\<forall>d'. d' \<notin> fst ` set ((d, et, now, dr) # ps) \<longrightarrow> activeNotesRef ?f d' = activeNotesRef s d'"
    using i5 st(5) by simp
  have c6: "note_ons (Num P) (engineCalls ?f) =
      note_ons (Num P) (engineCalls s) +
      (if (d, et, now, dr) # ps \<noteq> [] \<and> holders s P = [] then 1 else 0)"
    unfolding i6 n1 h1 by (simp add: set_add_nonempty)
  have c7: "note_offs q (engineCalls ?f) = note_offs q (engineCalls s)"
    unfolding i7 by (rule st(3))
  show ?case
    unfolding a pressAll_Cons using c1 i2 c3 c4 c5 c6 c7 by blast
qed

lemma release_phase:
  assumes "audioEngine cfg"
  shows "distinct (map fst rs) \<Longrightarrow> fst ` set rs \<subseteq> activeButtonsRef s \<Longrightarrow>
         \<forall>d \<in> fst ` set rs. \<exists>ch. activeNotesRef s d = Some ch \<and> P \<in> set ch \<Longrightarrow>
         globalMidiNotesRef s P \<noteq> Some [] \<Longrightarrow>
         set (holders (releaseAll cfg rs s) P) = set (holders s P) - fst ` set rs \<and>
         globalMidiNotesRef (releaseAll cfg rs s) P \<noteq> Some [] \<and>
         note_offs (Num P) (engineCalls (releaseAll cfg rs s)) =
           note_offs (Num P) (engineCalls s) +
           (if holders s P \<noteq> [] \<and> set (holders s P) \<subseteq> fst ` set rs then 1 else 0) \<and>
         note_ons q (engineCalls (releaseAll cfg rs s)) = note_ons q (engineCalls s)"
proof (induction rs arbitrary: s)
  case Nil
  then show ?case by (simp add: releaseAll_def)
next
  case (Cons a rs)
  obtain d now where a: "a = (d, now)" by (cases a) auto
  let ?s1 = "handleButtonUp cfg d now s"
  have da: "d \<in> activeButtonsRef s" "d \<notin> fst ` set rs" using Cons.prems a by auto
  obtain ch where ch: "activeNotesRef s d = Some ch" "P \<in> set ch" using Cons.prems a by auto
  note st = up_active [OF assms da(1) ch(1), where now = now]
  have g1: "globalMidiNotesRef ?s1 P = released d (globalMidiNotesRef s P)"
    using st(1) [of P] ch(2) by simp
  have h1: "holders ?s1 P = removeAll d (holders s P)"
    unfolding holders_def g1 by (rule holders_released)
  have n1: "note_offs (Num P) (engineCalls ?s1) =
      note_offs (Num P) (engineCalls s) +
      (if holders s P \<noteq> [] \<and> set (holders s P) \<subseteq> {d} then 1 else 0)"
    using st(2) [of P] ch(2) lastHolder_iff [OF Cons.prems(4), of d]
    by (simp add: holders_def)
  have p1: "distinct (map fst rs)" "fst ` set rs \<subseteq> activeButtonsRef ?s1"
      "\<forall>d \<in> fst ` set rs. \<exists>ch. activeNotesRef ?s1 d = Some ch \<and> P \<in> set ch"
      "globalMidiNotesRef ?s1 P \<noteq> Some []"
    using Cons.prems a da st(4,5) g1 by (auto simp: released_not_empty)
  note ih = Cons.IH [OF p1]
  have k: "(if holders s P \<noteq> [] \<and> set (holders s P) \<subseteq> {d} then 1 else 0) +
           (if holders ?s1 P \<noteq> [] \<and> set (holders ?s1 P) \<subseteq> fst ` set rs then 1 else 0) =
           (if holders s P \<noteq> [] \<and> set (holders s P) \<subseteq> insert d (fst ` set rs) then 1 else (0::nat))"
    unfolding h1 by (rule last_release_count)
  let ?f = "releaseAll cfg rs ?s1"
  have i1: "set (holders ?f P) = set (holders ?s1 P) - fst ` set rs" using ih by blast
  have i2: "globalMidiNotesRef ?f P \<noteq> Some []" using ih by blast
  have i3: "note_offs (Num P) (engineCalls ?f) =
      note_offs (Num P) (engineCalls ?s1) +
      (if holders ?s1 P \<noteq> [] \<and> set (holders ?s1 P) \<subseteq> fst ` set rs then 1 else 0)"
    using ih by blast
  have i4: "note_ons q (engineCalls ?f) = note_ons q (engineCalls ?s1)" using ih by blast
  have c1: "set (holders ?f P) = set (holders s P) - fst ` set ((d, now) # rs)"
    unfolding i1 h1 by auto
  have c3: "note_offs (Num P) (engineCalls ?f) =
      note_offs (Num P) (engineCalls s) +
      (if holders s P \<noteq> [] \<and> set (holders s P) \<subseteq> fst ` set ((d, now) # rs) then 1 else 0)"
    unfolding i3 n1 using k by simp
  have c4: "note_ons q (engineCalls ?f) = note_ons q (engineCalls s)"
    unfolding i4 by (rule st(3))
  show ?case
    unfolding a releaseAll_Cons using c1 i2 c3 c4 by blast
qed

lemma down_noop: "\<not> audioEngine cfg \<or> d \<in> activeButtonsRef s \<Longrightarrow> handleButtonDown cfg d et now dr s = s"
  by (auto simp: handleButtonDown_def)

lemma down_transition:
  assumes "currentMode cfg = play"
  shows "note_ons (Num P) (engineCalls (handleButtonDown cfg d et now dr s)) =
           note_ons (Num P) (engineCalls s) +
           (if holders s P = [] \<and> holders (handleButtonDown cfg d et now dr s) P \<noteq> [] then 1 else 0)"
proof (cases "audioEngine cfg \<and> d \<notin> activeButtonsRef s")
  case False
  then have "handleButtonDown cfg d et now dr s = s" by (intro down_noop) auto
  then show ?thesis by simp
next
  case True
  then have e: "audioEngine cfg" and n: "d \<notin> activeButtonsRef s" by auto
  note st = down_play [OF e assms n, where et = et and now = now and dr = dr]
  show ?thesis
    using st(1) [of P] st(2) [of P] by (simp add: holders_def set_add_nonempty)
qed

lemma up_none:
  assumes "audioEngine cfg" and "d \<in> activeButtonsRef s" and "activeNotesRef s d = None"
  shows "globalMidiNotesRef (handleButtonUp cfg d now s) = globalMidiNotesRef s"
    and "engineCalls (handleButtonUp cfg d now s) = engineCalls s"
  using assms by (simp_all add: handleButtonUp_def Let_def split: option.splits)

lemma up_transition:
  assumes "globalMidiNotesRef s P \<noteq> Some []"
  shows "note_offs (Num P) (engineCalls (handleButtonUp cfg d now s)) =
           note_offs (Num P) (engineCalls s) +
           (if holders s P \<noteq> [] \<and> holders (handleButtonUp cfg d now s) P = [] then 1 else 0)"
proof (cases "audioEngine cfg \<and> d \<in> activeButtonsRef s")
  case False
  then have "handleButtonUp cfg d now s = s" by (auto simp: handleButtonUp_def)
  then show ?thesis by simp
next
  case True
  then have e: "audioEngine cfg" and a: "d \<in> activeButtonsRef s" by auto
  show ?thesis
  proof (cases "activeNotesRef s d")
    case None
    from up_none [OF e a None, of now] show ?thesis by (simp add: holders_def)
  next
    case (Some chord)
    note st = up_active [OF e a Some, where now = now]
    show ?thesis
    proof (cases "P \<in> set chord")
      case False
      with st(1) [of P] st(2) [of P] show ?thesis by (simp add: holders_def)
    next
      case True
      have h: "holders (handleButtonUp cfg d now s) P = removeAll d (holders s P)"
        using st(1) [of P] True by (simp add: holders_def holders_released)
      show ?thesis
        using st(2) [of P] True lastHolder_iff [OF assms, of d] h
        by (simp add: holders_def removeAll_empty_iff)
    qed
  qed
qed

lemma nth_not_in_take: "distinct xs \<Longrightarrow> k < length xs \<Longrightarrow> xs ! k \<notin> set (take k xs)"
  by (metis distinct_conv_nth in_set_conv_nth length_take less_imp_le_nat min.absorb2
      nat_neq_iff nth_take order_less_trans)

text \<open>
  Every handler and timer keeps the entries of \<open>globalMidiNotesRef\<close> non-empty, as they
  are at mount.
\<close>

lemma playNote_gm: "globalMidiNotesRef (playNote h dr s) = globalMidiNotesRef s"
  by (simp add: playNote_def Let_def split: option.splits)

lemma holders_ok_kept:
  shows "holders_ok (mounted sq)"
    and "holders_ok s \<Longrightarrow> holders_ok (handleButtonDown cfg d et now dr s)"
    and "holders_ok s \<Longrightarrow> holders_ok (handleButtonUp cfg d now s)"
    and "holders_ok s \<Longrightarrow> holders_ok (arpStep h dr s)"
    and "holders_ok s \<Longrightarrow> holders_ok (gateTimeout h now s)"
proof -
  show "holders_ok (mounted sq)" by (simp add: holders_ok_def mounted_def)
  show "holders_ok s \<Longrightarrow> holders_ok (arpStep h dr s)"
    by (simp add: holders_ok_def arpStep_def playNote_gm split: option.splits)
  show "holders_ok s \<Longrightarrow> holders_ok (gateTimeout h now s)"
    by (auto simp: holders_ok_def gateTimeout_def record_note_def Let_def split: option.splits)
  show "holders_ok s \<Longrightarrow> holders_ok (handleButtonDown cfg d et now dr s)"
  proof -
    assume ok: "holders_ok s"
    show ?thesis
    proof (cases "audioEngine cfg \<and> d \<notin> activeButtonsRef s")
      case False
      then have "handleButtonDown cfg d et now dr s = s" by (intro down_noop) auto
      with ok show ?thesis by simp
    next
      case True
      show ?thesis
      proof (cases "currentMode cfg = play")
        case play: True
        from True have e: "audioEngine cfg" and n: "d \<notin> activeButtonsRef s" by auto
        show ?thesis
          using ok down_play(1) [OF e play n, where et = et and now = now and dr = dr]
          by (simp add: holders_ok_def set_add_nonempty)
      next
        case False
        then have "globalMidiNotesRef (handleButtonDown cfg d et now dr s) = globalMidiNotesRef s"
          using True by (simp add: handleButtonDown_def Let_def playNote_gm)
        with ok show ?thesis by (simp add: holders_ok_def)
      qed
    qed
  qed
  show "holders_ok s \<Longrightarrow> holders_ok (handleButtonUp cfg d now s)"
  proof -
    assume ok: "holders_ok s"
    show ?thesis
    proof (cases "audioEngine cfg \<and> d \<in> activeButtonsRef s")
      case False
      then have "handleButtonUp cfg d now s = s" by (auto simp: handleButtonUp_def)
      with ok show ?thesis by simp
    next
      case True
      then have e: "audioEngine cfg" and a: "d \<in> activeButtonsRef s" by auto
      show ?thesis
      proof (cases "activeNotesRef s d")
        case None
        from up_none(1) [OF e a None, of now] ok show ?thesis by (simp add: holders_ok_def)
      next
        case (Some chord)
        from up_active(1) [OF e a Some, where now = now] ok show ?thesis
          by (simp add: holders_ok_def released_not_empty)
      qed
    qed
  qed
qed

text \<open>
  C1. In play mode, when any number of distinct buttons whose chords all contain pitch
  \<open>P\<close> are pressed while \<open>P\<close> has no holder, and then released in any order, the engine
  receives exactly one \<open>noteOn\<close> and exactly one \<open>noteOff\<close> for \<open>P\<close>, and no \<open>noteOff\<close>
  before the last of them is released. Step by step: a button-down issues \<open>noteOn(P)\<close>
  exactly when it takes the holder set of \<open>P\<close> from empty to non-empty, and a button-up
  issues \<open>noteOff(P)\<close> exactly when it takes it from non-empty to empty.
\<close>

theorem shared_pitch_once:
  assumes "audioEngine cfg" and "currentMode cfg = play"
      and "ps \<noteq> []" and "distinct (map fst ps)" and "fst ` set ps \<inter> activeButtonsRef s = {}"
      and "\<forall>d \<in> fst ` set ps. P \<in> set (generateChord cfg d)"
      and "globalMidiNotesRef s P = None"
      and "distinct (map fst rs)" and "fst ` set rs = fst ` set ps"
  shows "note_ons (Num P) (engineCalls (releaseAll cfg rs (pressAll cfg ps s))) =
           Suc (note_ons (Num P) (engineCalls s)) \<and>
         note_offs (Num P) (engineCalls (releaseAll cfg rs (pressAll cfg ps s))) =
           Suc (note_offs (Num P) (engineCalls s)) \<and>
         (\<forall>k < length rs.
            note_offs (Num P) (engineCalls (releaseAll cfg (take k rs) (pressAll cfg ps s))) =
              note_offs (Num P) (engineCalls s)) \<and>
         (\<forall>s' d et now dr.
            note_ons (Num P) (engineCalls (handleButtonDown cfg d et now dr s')) =
              note_ons (Num P) (engineCalls s') +
              (if holders s' P = [] \<and> holders (handleButtonDown cfg d et now dr s') P \<noteq> []
               then 1 else 0)) \<and>
         (\<forall>s' d now. globalMidiNotesRef s' P \<noteq> Some [] \<longrightarrow>
            note_offs (Num P) (engineCalls (handleButtonUp cfg d now s')) =
              note_offs (Num P) (engineCalls s') +
              (if holders s' P \<noteq> [] \<and> holders (handleButtonUp cfg d now s') P = []
               then 1 else 0))"
proof -
  let ?m = "pressAll cfg ps s"
  have h0: "holders s P = []" using assms(7) by (simp add: holders_def)
  have g0: "globalMidiNotesRef s P \<noteq> Some []" using assms(7) by simp
  note pp = press_phase [OF assms(1,2,4,5,6)]
  have m1: "set (holders ?m P) = fst ` set ps" using pp h0 by simp
  have m2: "globalMidiNotesRef ?m P \<noteq> Some []" using pp g0 by blast
  have m3: "activeButtonsRef ?m = activeButtonsRef s \<union> fst ` set ps" using pp by blast
  have m4: "\<forall>d \<in> fst ` set ps. activeNotesRef ?m d = Some (generateChord cfg d)" using pp by blast
  have m5: "note_ons (Num P) (engineCalls ?m) = Suc (note_ons (Num P) (engineCalls s))"
    using pp [of "Num P"] h0 assms(3) by simp
  have m6: "note_offs (Num P) (engineCalls ?m) = note_offs (Num P) (engineCalls s)"
    using pp [of "Num P"] by blast
  have ne: "holders ?m P \<noteq> []" using m1 assms(3) by (cases ps) auto
  have held: "\<forall>d \<in> fst ` set ps. \<exists>ch. activeNotesRef ?m d = Some ch \<and> P \<in> set ch"
    using m4 assms(6) by auto
  have r_all: "fst ` set rs \<subseteq> activeButtonsRef ?m" using m3 assms(9) by auto
  note rp = release_phase [OF assms(1,8) r_all _ m2]
  have held_r: "\<forall>d \<in> fst ` set rs. \<exists>ch. activeNotesRef ?m d = Some ch \<and> P \<in> set ch"
    using held assms(9) by simp
  have f1: "note_ons (Num P) (engineCalls (releaseAll cfg rs ?m)) = Suc (note_ons (Num P) (engineCalls s))"
    using rp [OF held_r, of "Num P"] m5 by simp
  have f2: "note_offs (Num P) (engineCalls (releaseAll cfg rs ?m)) = Suc (note_offs (Num P) (engineCalls s))"
    using rp [OF held_r, of "Num P"] m6 m1 ne assms(9) by simp
  have f3: "\<forall>k < length rs.
            note_offs (Num P) (engineCalls (releaseAll cfg (take k rs) ?m)) =
              note_offs (Num P) (engineCalls s)"
  proof (intro allI impI)
    fix k assume k: "k < length rs"
    let ?t = "take k rs"
    have d: "distinct (map fst ?t)" using assms(8) by (simp add: take_map [symmetric] distinct_take)
    have sub: "fst ` set ?t \<subseteq> fst ` set rs" by (auto dest: in_set_takeD)
    have a: "fst ` set ?t \<subseteq> activeButtonsRef ?m" using sub r_all by blast
    have h: "\<forall>d \<in> fst ` set ?t. \<exists>ch. activeNotesRef ?m d = Some ch \<and> P \<in> set ch"
      using held_r sub by blast
    have "map fst rs ! k \<notin> set (take k (map fst rs))"
      using assms(8) k by (intro nth_not_in_take) auto
    moreover have "map fst rs ! k \<in> fst ` set rs" using k by (metis length_map list.set_map nth_mem)
    moreover have "set (take k (map fst rs)) = fst ` set ?t" by (simp add: take_map)
    ultimately have "\<not> fst ` set rs \<subseteq> fst ` set ?t" by blast
    then have "\<not> set (holders ?m P) \<subseteq> fst ` set ?t"
      unfolding m1 assms(9) [symmetric] .
    with release_phase [OF assms(1) d a h m2, of "Num P"] m6
    show "note_offs (Num P) (engineCalls (releaseAll cfg ?t ?m)) = note_offs (Num P) (engineCalls s)"
      by simp
  qed
  show ?thesis
    using f1 f2 f3 down_transition [OF assms(2)] up_transition by blast
qed

lemmas chord_eval = handleButtonDown_def handleButtonUp_def pressNote_def releaseNote_def
  playNote_def arpStep_def gateTimeout_def record_note_def set_add_def set_delete_def
  buildArpNotes_def extendChord_def js_index_def mounted_def Let_def

text \<open>
  C1, witness: buttons 0, 2 and 5 are pressed and released in the order 2, 5, 0; pitch 64
  gets one \<open>noteOn\<close>, one \<open>noteOff\<close>, and none while button 0 is still down.
\<close>

theorem shared_pitch_once_witness:
  "note_ons (Num 64) (engineCalls (releaseAll play_cfg three_up (pressAll play_cfg three_down (mounted sq0)))) = 1 \<and>
   note_offs (Num 64) (engineCalls (releaseAll play_cfg three_up (pressAll play_cfg three_down (mounted sq0)))) = 1 \<and>
   note_offs (Num 64) (engineCalls (releaseAll play_cfg (take 2 three_up) (pressAll play_cfg three_down (mounted sq0)))) = 0"
proof -
  have a: "audioEngine play_cfg" "currentMode play_cfg = play" by (simp_all add: play_cfg_def)
  have b: "three_down \<noteq> []" "distinct (map fst three_down)"
      "fst ` set three_down \<inter> activeButtonsRef (mounted sq0) = {}"
      "\<forall>d \<in> fst ` set three_down. 64 \<in> set (generateChord play_cfg d)"
      "globalMidiNotesRef (mounted sq0) 64 = None"
      "distinct (map fst three_up)" "fst ` set three_up = fst ` set three_down"
    by (auto simp: three_down_def three_up_def mounted_def play_cfg_def triads_def)
  have z: "note_ons (Num 64) (engineCalls (mounted sq0)) = 0"
      "note_offs (Num 64) (engineCalls (mounted sq0)) = 0" "(2::nat) < length three_up"
    by (simp_all add: mounted_def note_ons_def note_offs_def three_up_def)
  from shared_pitch_once [OF a b] z show ?thesis by simp
qed

text \<open>
  C9. A second \<open>handleButtonUp\<close> for the same button with no press in between changes
  nothing at all, so the two releases together issue at most one \<open>noteOff\<close> for any
  pitch; and the release of a pitch whose holder set does not name the button (and, as
  the handlers keep it, is not stored empty) leaves the holder sets and the engine log
  as they were.
\<close>

theorem release_twice:
  "handleButtonUp cfg d t2 (handleButtonUp cfg d t1 s) = handleButtonUp cfg d t1 s \<and>
   note_offs (Num p) (engineCalls (handleButtonUp cfg d t2 (handleButtonUp cfg d t1 s))) \<le>
     Suc (note_offs (Num p) (engineCalls s)) \<and>
   ((case globalMidiNotesRef s n of None \<Rightarrow> True | Some hs \<Rightarrow> d \<notin> set hs \<and> hs \<noteq> []) \<longrightarrow>
      globalMidiNotesRef (releaseNote im d rec rs t s n) = globalMidiNotesRef s \<and>
      engineCalls (releaseNote im d rec rs t s n) = engineCalls s)"
proof -
  have a: "handleButtonUp cfg d t2 (handleButtonUp cfg d t1 s) = handleButtonUp cfg d t1 s"
  proof (cases "audioEngine cfg")
    case True
    then show ?thesis by (intro up_inactive up_deactivates)
  next
    case False
    then show ?thesis by (simp add: up_no_engine)
  qed
  have b: "note_offs (Num p) (engineCalls (handleButtonUp cfg d t2 (handleButtonUp cfg d t1 s))) \<le>
     Suc (note_offs (Num p) (engineCalls s))"
    unfolding a by (rule up_note_offs_le)
  have c: "(case globalMidiNotesRef s n of None \<Rightarrow> True | Some hs \<Rightarrow> d \<notin> set hs \<and> hs \<noteq> []) \<longrightarrow>
      globalMidiNotesRef (releaseNote im d rec rs t s n) = globalMidiNotesRef s \<and>
      engineCalls (releaseNote im d rec rs t s n) = engineCalls s"
  proof (cases "globalMidiNotesRef s n")
    case None
    then show ?thesis
      by (simp add: releaseNote_gm releaseNote_calls released_def lastHolder_def fun_upd_idem)
  next
    case (Some hs)
    show ?thesis
    proof (intro impI)
      assume "case globalMidiNotesRef s n of None \<Rightarrow> True | Some hs \<Rightarrow> d \<notin> set hs \<and> hs \<noteq> []"
      then have h: "d \<notin> set hs" "hs \<noteq> []" using Some by simp_all
      then have "removeAll d hs = hs" by simp
      with h Some show "globalMidiNotesRef (releaseNote im d rec rs t s n) = globalMidiNotesRef s \<and>
          engineCalls (releaseNote im d rec rs t s n) = engineCalls s"
        by (simp add: releaseNote_gm releaseNote_calls released_def lastHolder_def fun_upd_idem)
    qed
  qed
  show ?thesis using a b c by blast
qed

lemma two_held_holders: "globalMidiNotesRef two_held 71 = Some [2]"
  by (simp add: two_held_def pressAll_def chord_eval play_cfg_def triads_def sq0_def)

text \<open>
  C9, witness: button 0 released twice while 0 and 2 are held; pitch 71 is held by
  button 2 alone.
\<close>

theorem release_twice_witness:
  "handleButtonUp play_cfg 0 50 (handleButtonUp play_cfg 0 40 two_held) =
     handleButtonUp play_cfg 0 40 two_held \<and>
   note_offs (Num 60) (engineCalls (handleButtonUp play_cfg 0 50 (handleButtonUp play_cfg 0 40 two_held))) \<le>
     Suc (note_offs (Num 60) (engineCalls two_held)) \<and>
   globalMidiNotesRef (releaseNote False 0 False 0 100 two_held 71) = globalMidiNotesRef two_held \<and>
   engineCalls (releaseNote False 0 False 0 100 two_held 71) = engineCalls two_held"
proof -
  have h: "case globalMidiNotesRef two_held 71 of None \<Rightarrow> True
           | Some hs \<Rightarrow> 0 \<notin> set hs \<and> hs \<noteq> []"
    by (simp add: two_held_holders)
  from release_twice [of play_cfg 0 50 40 two_held 60 71 False False 0 100] h
  show ?thesis by blast
qed

text \<open>
  C4, evaluated: an arpeggiator button is pressed and released. The release clears the
  interval but sends no \<open>noteOff\<close>: the log still ends with the \<open>noteOn\<close> of pitch 60 and
  the run still has 60 as its sounding note; with a gate below 1 the gate timeout set
  by \<open>playNote\<close> is still pending after the release.
\<close>

theorem arp_release_leaves_note:
  "engineCalls (handleButtonUp arp_cfg 0 200 (handleButtonDown arp_cfg 0 None 100 dr0 (mounted sq0))) =
     [NoteOn (Num 60) (7 / 10)] \<and>
   arpSessions (handleButtonUp arp_cfg 0 200 (handleButtonDown arp_cfg 0 None 100 dr0 (mounted sq0))) 1 =
     Some \<lparr>arpDegree = 0, captured = arpSettings arp_cfg, arpNotes = [60, 64, 67, 64],
            baseVelocity = 7 / 10, currentNoteIndex = 1, currentPlayingNote = Some (Num 60),
            noteOffTimeout = None, intervalActive = False\<rparr> \<and>
   noteOffTimeout (the (arpSessions
       (handleButtonUp gated_cfg 0 200 (handleButtonDown gated_cfg 0 None 100 dr0 (mounted sq0))) 1)) =
     Some (Num 60, False, 0) \<and>
   engineCalls (handleButtonUp gated_cfg 0 200 (handleButtonDown gated_cfg 0 None 100 dr0 (mounted sq0))) =
     [NoteOn (Num 60) (7 / 10)]"
  by (simp add: chord_eval arp_cfg_def gated_cfg_def sq0_def dr0_def)

text \<open>
  After the render that follows an arpeggiator press, \<open>activeNotesRef\<close> holds the run's
  sequence in place of the chord. A release then walks that sequence: under recording
  it records a note-off for each of its entries, and it still sends no \<open>noteOff\<close>.
\<close>

lemma release_after_sync:
  "activeNotesRef (handleButtonDown arp_cfg 0 None 100 dr0 (mounted (enableRecording sq0))) 0 =
     Some [60, 64, 67] \<and>
   activeNotesRef (syncRefs (handleButtonDown arp_cfg 0 None 100 dr0 (mounted (enableRecording sq0)))) 0 =
     Some [60, 64, 67, 64] \<and>
   engineCalls (handleButtonUp arp_cfg 0 200
       (syncRefs (handleButtonDown arp_cfg 0 None 100 dr0 (mounted (enableRecording sq0))))) =
     [NoteOn (Num 60) (7 / 10)] \<and>
   map (\<lambda>n. (ntype n, midiNote n, time n))
     (recordedNotes (store (handleButtonUp arp_cfg 0 200
       (syncRefs (handleButtonDown arp_cfg 0 None 100 dr0 (mounted (enableRecording sq0))))))) =
     [(noteOn, Num 60, 0), (noteOff, Num 60, 100), (noteOff, Num 64, 100),
      (noteOff, Num 67, 100), (noteOff, Num 64, 100)]"
  by (simp add: chord_eval syncRefs_def arp_cfg_def sq0_def dr0_def enableRecording_def)

text \<open>
  C10, evaluated. The gate timeout tests the \<open>isRecording\<close> and \<open>recordingStartTime\<close> that
  \<open>playNote\<close> read when it set the timer, where \<open>handleButtonUp\<close> reads the store when it
  runs. First: recording is armed again, nothing is recorded and \<open>recordingStartTime\<close> is
  0, when the gate timeout of a note played during the previous recording fires at
  325 ms; its note-off is appended to the buffer, with a time relative to the previous
  recording's start, and \<open>recordingStartTime\<close> stays 0. Second: the note that starts a
  recording is played while \<open>recordingStartTime\<close> is still 0, so its gate timeout at
  180 ms sends the \<open>noteOff\<close> but records nothing although the recording is in progress
  by then; the recording of the run's first two notes holds the note-on of 60, the
  note-on of 64 and the note-off of 64, and no note-off of 60.
\<close>

theorem stale_gate_off_recorded:
  "isRecording (store rearmed) \<and> recordingStartTime (store rearmed) = 0 \<and>
   recordedNotes (store rearmed) = [] \<and>
   recordedNotes (store (gateTimeout 1 325 rearmed)) =
     [\<lparr>time = 225, ntype = noteOff, midiNote = Num 64, velocity = 0, degree = 1\<rparr>] \<and>
   recordingStartTime (store (gateTimeout 1 325 rearmed)) = 0 \<and>
   isRecording (store recording_arp) \<and> recordingStartTime (store recording_arp) = 100 \<and>
   recordedNotes (store recording_arp) =
     [\<lparr>time = 0, ntype = noteOn, midiNote = Num 60, velocity = 7 / 10, degree = 1\<rparr>] \<and>
   engineCalls (gateTimeout 1 180 recording_arp) =
     [NoteOn (Num 60) (7 / 10), NoteOff (Num 60) True] \<and>
   recordedNotes (store (gateTimeout 1 180 recording_arp)) =
     [\<lparr>time = 0, ntype = noteOn, midiNote = Num 60, velocity = 7 / 10, degree = 1\<rparr>] \<and>
   recordedNotes (store (gateTimeout 1 325 (arpStep 1 dr1 (gateTimeout 1 180 recording_arp)))) =
     [\<lparr>time = 0, ntype = noteOn, midiNote = Num 60, velocity = 7 / 10, degree = 1\<rparr>,
      \<lparr>time = 125, ntype = noteOn, midiNote = Num 64, velocity = 7 / 10, degree = 1\<rparr>,
      \<lparr>time = 225, ntype = noteOff, midiNote = Num 64, velocity = 0, degree = 1\<rparr>]"
  by (simp add: rearmed_def recording_arp_def chord_eval gated_cfg_def sq0_def dr0_def dr1_def
      enableRecording_def stopRecording_def)

text \<open>
  What does hold while recording is armed and \<open>recordingStartTime\<close> is 0: a button
  release leaves the sequencer store as it is; so does a gate timeout whose \<open>playNote\<close>
  did not read a recording in progress when it set the timer; a play-mode press of a
  non-empty chord sets \<open>recordingStartTime\<close> to the press time and makes the buffer the
  chord's note-ons at time 0; and \<open>playNote\<close> sets it to its clock reading and makes the
  buffer its one note-on at time 0.
\<close>

lemma sentinel_release_discarded:
  assumes "isRecording (store s)" and "recordingStartTime (store s) = 0"
  shows "store (handleButtonUp cfg d now s) = store s \<and>
         (\<forall>h ss n r rs. arpSessions s h = Some ss \<and> noteOffTimeout ss = Some (n, r, rs) \<and>
              (r \<longrightarrow> rs \<le> 0) \<longrightarrow> store (gateTimeout h now s) = store s) \<and>
         (audioEngine cfg \<and> currentMode cfg = play \<and> d \<notin> activeButtonsRef s \<and>
          generateChord cfg d \<noteq> [] \<longrightarrow>
            recordingStartTime (store (handleButtonDown cfg d et now dr s)) =
              (case et of None \<Rightarrow> now | Some t \<Rightarrow> if t = 0 then now else t) \<and>
            recordedNotes (store (handleButtonDown cfg d et now dr s)) =
              map (\<lambda>n. \<lparr>time = 0, ntype = noteOn, midiNote = Num n, velocity = 7 / 10,
                          degree = d + 1\<rparr>) (generateChord cfg d)) \<and>
         (\<forall>h ss. arpSessions s h = Some ss \<longrightarrow>
            recordingStartTime (store (playNote h dr s)) = currentTime dr \<and>
            (\<exists>n v. recordedNotes (store (playNote h dr s)) =
               [\<lparr>time = 0, ntype = noteOn, midiNote = n, velocity = v, degree = arpDegree ss + 1\<rparr>]))"
proof -
  have u: "store (handleButtonUp cfg d now s) = store s"
    using assms(2)
    by (simp add: handleButtonUp_def Let_def release_fold_store split: option.splits)
  have g: "\<forall>h ss n r rs. arpSessions s h = Some ss \<and> noteOffTimeout ss = Some (n, r, rs) \<and>
              (r \<longrightarrow> rs \<le> 0) \<longrightarrow> store (gateTimeout h now s) = store s"
    by (auto simp: gateTimeout_def Let_def)
  have p: "audioEngine cfg \<and> currentMode cfg = play \<and> d \<notin> activeButtonsRef s \<and>
          generateChord cfg d \<noteq> [] \<longrightarrow>
            recordingStartTime (store (handleButtonDown cfg d et now dr s)) =
              (case et of None \<Rightarrow> now | Some t \<Rightarrow> if t = 0 then now else t) \<and>
            recordedNotes (store (handleButtonDown cfg d et now dr s)) =
              map (\<lambda>n. \<lparr>time = 0, ntype = noteOn, midiNote = Num n, velocity = 7 / 10,
                          degree = d + 1\<rparr>) (generateChord cfg d)"
    using assms by (simp add: handleButtonDown_def Let_def press_fold_frame)
  have a: "\<forall>h ss. arpSessions s h = Some ss \<longrightarrow>
            recordingStartTime (store (playNote h dr s)) = currentTime dr \<and>
            (\<exists>n v. recordedNotes (store (playNote h dr s)) =
               [\<lparr>time = 0, ntype = noteOn, midiNote = n, velocity = v, degree = arpDegree ss + 1\<rparr>])"
    using assms by (simp add: playNote_def Let_def)
  show ?thesis using u g p a by blast
qed

subsection \<open>Saving a recording\<close>

lemma snapshot_eq:
  "\<lparr>waveform = waveform c, p_adsr = p_adsr c, p_filter = x, p_lfo = p_lfo c, detune = detune c,
     p_effects = p_effects c\<rparr> = c\<lparr>p_filter := x\<rparr>"
  by (cases c) simp

text \<open>
  C6. \<open>savePattern\<close> on an empty buffer reports \<open>EmptyRecording\<close> and leaves the state as
  it was; on a non-empty buffer it creates a pattern holding the recorded notes whose
  length is the largest recorded time divided by 1000 plus one half, whose
  \<open>capturedParameters\<close> are the store's current configuration (waveform, envelope, LFO,
  detune and effects as they are, the filter a copy of the store's filter object, the
  empty object when the store has none), appends it to the patterns and empties the
  buffer.
\<close>

theorem savePattern_contract:
  "(recordedNotes (seq r) = [] \<longrightarrow> savePattern env r = (Inl EmptyRecording, r)) \<and>
   (recordedNotes (seq r) \<noteq> [] \<longrightarrow>
      (\<exists>p. savePattern env r =
             (Inr p, r\<lparr>seq := (seq r)\<lparr>patterns := patterns (seq r) @ [p], recordedNotes := []\<rparr>,
                       patternName := []\<rparr>) \<and>
           pattern_notes p = recordedNotes (seq r) \<and>
           (\<exists>n \<in> set (recordedNotes (seq r)). pattern_length p = time n / 1000 + 1 / 2) \<and>
           (\<forall>n \<in> set (recordedNotes (seq r)). time n / 1000 + 1 / 2 \<le> pattern_length p) \<and>
           capturedParameters p =
             Some ((current r)\<lparr>p_filter := Some (case p_filter (current r) of
                                                     None \<Rightarrow> empty_object | Some f \<Rightarrow> f)\<rparr>) \<and>
           (p_filter (current r) \<noteq> None \<longrightarrow> capturedParameters p = Some (current r))))"
proof (cases "recordedNotes (seq r) = []")
  case True
  then show ?thesis by (simp add: savePattern_def)
next
  case False
  let ?ts = "set (map time (recordedNotes (seq r)))"
  have fin: "finite ?ts" and ne: "?ts \<noteq> {}" using False by auto
  from Max_in [OF fin ne] obtain n where n: "n \<in> set (recordedNotes (seq r))" "time n = Max ?ts"
    by auto
  have le: "\<forall>m \<in> set (recordedNotes (seq r)). time m \<le> Max ?ts"
    using fin by (auto intro: Max_ge)
  show ?thesis using False n le
    by (auto simp: savePattern_def Let_def snapshot_eq intro!: bexI [of _ n])
qed

text \<open>C6, witness: an empty buffer, and a buffer whose latest event is at 1500 ms.\<close>

theorem savePattern_contract_witness:
  "savePattern env0 (recorder0 []) = (Inl EmptyRecording, recorder0 []) \<and>
   (\<exists>p. fst (savePattern env0 (recorder0 rec_notes)) = Inr p \<and> pattern_length p = 2 \<and>
        capturedParameters p = Some saved0 \<and> pattern_notes p = rec_notes \<and>
        patterns (seq (snd (savePattern env0 (recorder0 rec_notes)))) = [p]) \<and>
   recordedNotes (seq (snd (savePattern env0 (recorder0 rec_notes)))) = []"
proof -
  have e: "recordedNotes (seq (recorder0 [])) = []" by (simp add: recorder0_def)
  have f: "recordedNotes (seq (recorder0 rec_notes)) = rec_notes" "rec_notes \<noteq> []"
      "current (recorder0 rec_notes) = params0" "patterns (seq (recorder0 rec_notes)) = []"
    by (simp_all add: recorder0_def rec_notes_def sq0_def)
  have t: "set (map time rec_notes) = {0, 1500, 1400}"
    by (auto simp: rec_notes_def note_at_def)
  from savePattern_contract [of "recorder0 []" env0] e
  have a: "savePattern env0 (recorder0 []) = (Inl EmptyRecording, recorder0 [])" by simp
  from savePattern_contract [of "recorder0 rec_notes" env0] f
  obtain p where p: "savePattern env0 (recorder0 rec_notes) =
        (Inr p, (recorder0 rec_notes)\<lparr>seq := (seq (recorder0 rec_notes))\<lparr>patterns := [p],
           recordedNotes := []\<rparr>, patternName := []\<rparr>)"
      "pattern_notes p = rec_notes"
      "\<exists>n \<in> set rec_notes. pattern_length p = time n / 1000 + 1 / 2"
      "\<forall>n \<in> set rec_notes. time n / 1000 + 1 / 2 \<le> pattern_length p"
      "capturedParameters p = Some saved0"
    by (auto simp: saved0_def params0_def)
  have "pattern_length p = 2"
    using p(3,4) by (auto simp: rec_notes_def note_at_def)
  with a p show ?thesis by simp
qed

subsection \<open>The timeline scheduler\<close>

lemmas timeline_eval = tick_def tickBody_def playClip_def find_pattern_def Let_def effectiveElapsedMs_def
  loopDurationMs_def loopEndTime_def js_rem_def beatDuration_def restartDetected_def
  activateClip_def deactivateClip_def map_has_def map_delete_def dispatchNote_def note_at_def
  set_add_def set_delete_def playbackStart_def loopRestart_def




lemma dispatchNote_lastTime: "lastTime (dispatchNote cid rt s n) = lastTime s"
  by (simp add: dispatchNote_def Let_def split: note_type.splits)

lemma foldl_dispatch_lastTime: "lastTime (foldl (dispatchNote cid rt) s ns) = lastTime s"
  by (induction ns arbitrary: s) (simp_all add: dispatchNote_lastTime)

lemma activateClip_lastTime: "lastTime (reached (activateClip c p s)) = lastTime s"
  by (simp add: activateClip_def Let_def split: option.splits outcome.splits)

lemma deactivateClip_lastTime: "lastTime (reached (deactivateClip g c s)) = lastTime s"
  by (simp add: deactivateClip_def Let_def split: outcome.splits)

lemma playClip_lastTime: "lastTime (reached (playClip tp g b s c)) = lastTime s"
proof (cases "find_pattern tp c")
  case None
  then show ?thesis by (simp add: playClip_def)
next
  case (Some p)
  show ?thesis
  proof (cases "activateClip c p s")
    case (Returned s1)
    then have "lastTime s1 = lastTime s" using activateClip_lastTime [of c p s] by simp
    then show ?thesis
      using Some Returned
      by (simp add: playClip_def Let_def foldl_dispatch_lastTime deactivateClip_lastTime)
  next
    case (Threw s1)
    then have "lastTime s1 = lastTime s" using activateClip_lastTime [of c p s] by simp
    then show ?thesis
      using Some Threw by (simp add: playClip_def Let_def deactivateClip_lastTime)
  qed
qed

lemma forEach_playClip_lastTime: "lastTime (reached (forEach (playClip tp g b) s cs)) = lastTime s"
proof (induction cs arbitrary: s)
  case Nil
  then show ?case by simp
next
  case (Cons c cs)
  show ?case
  proof (cases "playClip tp g b s c")
    case (Returned s1)
    then have "lastTime s1 = lastTime s" using playClip_lastTime [of tp g b s c] by simp
    then show ?thesis using Returned Cons.IH [of s1] by simp
  next
    case (Threw s1)
    then have "lastTime s1 = lastTime s" using playClip_lastTime [of tp g b s c] by simp
    then show ?thesis using Threw by simp
  qed
qed

lemma tickBody_reached:
  "\<exists>s3. reached (forEach (playClip tp g (effectiveElapsedMs tp e / beatDuration tp))
                    (s\<lparr>lastTime := e, position := effectiveElapsedMs tp e / beatDuration tp\<rparr>)
                    (tl_timeline tp)) = s3 \<and>
        (reached (tickBody tp g e s) = s3 \<or> reached (tickBody tp g e s) = s3\<lparr>scheduledNotes := []\<rparr>)"
  by (simp add: tickBody_def Let_def split: outcome.splits)

lemma tickBody_lastTime: "lastTime (reached (tickBody tp g e s)) = e"
  using tickBody_reached [of tp g e s] forEach_playClip_lastTime [of tp g _ "s\<lparr>lastTime := e,
      position := effectiveElapsedMs tp e / beatDuration tp\<rparr>" "tl_timeline tp"]
  by auto



lemma floor_unit: "0 \<le> (x::real) \<Longrightarrow> x < 8000 \<Longrightarrow> \<lfloor>x / 8000\<rfloor> = 0"
  by (simp add: floor_eq_iff)

lemma floor_second: "8000 \<le> (x::real) \<Longrightarrow> x < 16000 \<Longrightarrow> \<lfloor>x / 8000\<rfloor> = 1"
  by (simp add: floor_eq_iff)

text \<open>
  C3. Looping with \<open>loopDurationMs = 8000\<close>: a tick before the crossing detects no
  restart; the tick on which \<open>elapsedMs\<close> first reaches 8000 detects one and is the clip
  walk from the reset state, which has a \<open>timelineNoteOff\<close> for every pitch tracked by
  every active clip appended to the log and \<open>scheduledNotes\<close>, \<open>activeClips\<close> and the
  parameter owner cleared; the following ticks of that iteration detect none, whether
  the crossing tick returned or threw; and the effective elapsed time is the elapsed
  time modulo 8000, 50 at 8050.
\<close>

theorem loop_restart_sweep:
  assumes "isLooping tp" and "loopDurationMs tp = 8000"
      and "0 \<le> lastTime s" and "lastTime s < 8000"
      and "8000 \<le> elapsedMs" and "elapsedMs \<le> later" and "later < 16000"
      and "0 \<le> earlier" and "earlier < 8000"
  shows "\<not> restartDetected tp earlier s \<and>
         restartDetected tp elapsedMs s \<and>
         tick tp globals elapsedMs s = tickBody tp globals elapsedMs (loopRestart s) \<and>
         calls (loopRestart s) = calls s @ map TimelineNoteOff (concat (map snd (activeClips s))) \<and>
         scheduledNotes (loopRestart s) = [] \<and> activeClips (loopRestart s) = [] \<and>
         currentParametersClipId (loopRestart s) = None \<and>
         \<not> restartDetected tp later (reached (tick tp globals elapsedMs s)) \<and>
         effectiveElapsedMs tp 8050 = 50 \<and>
         (\<forall>e \<ge> 0. effectiveElapsedMs tp e = e - 8000 * of_int \<lfloor>e / 8000\<rfloor>)"
proof -
  have f0: "\<lfloor>lastTime s / 8000\<rfloor> = 0" using assms(3,4) by (rule floor_unit)
  have fe: "\<lfloor>earlier / 8000\<rfloor> = 0" using assms(8,9) by (rule floor_unit)
  have f1: "\<lfloor>elapsedMs / 8000\<rfloor> = 1" using assms(5,6,7) by (intro floor_second) auto
  have f2: "\<lfloor>later / 8000\<rfloor> = 1" using assms(5,6,7) by (intro floor_second) auto
  have r: "restartDetected tp elapsedMs s"
    using assms(1,2) f0 f1 by (simp add: restartDetected_def)
  have t: "tick tp globals elapsedMs s = tickBody tp globals elapsedMs (loopRestart s)"
    using assms(1) r by (simp add: tick_def)
  have n: "\<not> restartDetected tp later (reached (tick tp globals elapsedMs s))"
    using f1 f2 assms(2) by (simp add: t restartDetected_def tickBody_lastTime)
  have e: "\<not> restartDetected tp earlier s"
    using f0 fe assms(2) by (simp add: restartDetected_def)
  have m: "effectiveElapsedMs tp 8050 = 50"
    using assms(1,2) by (simp add: effectiveElapsedMs_def js_rem_def)
  have g: "\<forall>e \<ge> 0. effectiveElapsedMs tp e = e - 8000 * of_int \<lfloor>e / 8000\<rfloor>"
    using assms(1,2) by (simp add: effectiveElapsedMs_def js_rem_def)
  show ?thesis using r t n e m g by (simp add: loopRestart_def)
qed

lemma loop_tp_duration: "loopDurationMs loop_tp = 8000"
  by (simp add: loopDurationMs_def loopEndTime_def loop_tp_def find_pattern_def pat8_def)

lemma loop_tp_body: "tickBody loop_tp params0 8005 (loopRestart before_wrap) =
   Returned \<lparr>timelineNotes = [Num 60], lastTime = 8005, activeClips = [(''c1'', [Num 60])],
     hasLooped = False, activeClipsWithParams = [], currentParametersClipId = None,
     scheduledNotes = [(''c1'', 0, Num 60, noteOn)], playing = True, position = 1 / 100,
     calls = [TimelineNoteOff (Num 60), TimelineNoteOn (Num 60) (7 / 10)]\<rparr>"
  by (simp add: tickBody_def loopRestart_def before_wrap_def loop_tp_def playClip_def find_pattern_def pat8_def
     Let_def effectiveElapsedMs_def loopDurationMs_def loopEndTime_def js_rem_def beatDuration_def
     activateClip_def map_has_def dispatchNote_def note_at_def set_add_def)

text \<open>C3, witness: the wrap at 8005 ms stops pitch 60 and the clip's first note starts again.\<close>

theorem loop_restart_sweep_witness:
  "restartDetected loop_tp 8005 before_wrap \<and>
   calls (reached (tick loop_tp params0 8005 before_wrap)) =
     [TimelineNoteOff (Num 60), TimelineNoteOn (Num 60) (7 / 10)] \<and>
   \<not> threw (tick loop_tp params0 8005 before_wrap) \<and>
   \<not> restartDetected loop_tp 8015 (reached (tick loop_tp params0 8005 before_wrap)) \<and>
   \<not> restartDetected loop_tp 7999 before_wrap \<and>
   effectiveElapsedMs loop_tp 8050 = 50"
proof -
  have l: "isLooping loop_tp" by (simp add: loop_tp_def)
  have t: "lastTime before_wrap = 7995" by (simp add: before_wrap_def)
  have n: "(0::real) \<le> 7995" "(7995::real) < 8000" "(8000::real) \<le> 8005" "(8005::real) \<le> 8015"
      "(8015::real) < 16000" "(0::real) \<le> 7999" "(7999::real) < 8000"
    by simp_all
  note h = loop_restart_sweep [OF l loop_tp_duration, of before_wrap 8005 8015 7999 params0, unfolded t, OF n]
  have c: "calls (reached (tick loop_tp params0 8005 before_wrap)) =
      [TimelineNoteOff (Num 60), TimelineNoteOn (Num 60) (7 / 10)]"
      "\<not> threw (tick loop_tp params0 8005 before_wrap)"
    using h loop_tp_body by simp_all
  show ?thesis using h c by blast
qed

text \<open>
  C8, evaluated without clips: \<open>loopDurationMs\<close> is 0 while only \<open>loopEndBeat\<close> takes the
  default of 32 beats; a looping playback then never wraps (at 20000 ms the playhead is
  at beat 40 with no restart), and a non-looping one halts on its first tick.
\<close>

theorem no_clips_no_loop:
  "loopDurationMs empty_tp = 0 \<and> loopEndBeat empty_tp = 32 \<and>
   effectiveElapsedMs empty_tp 20000 = 20000 \<and>
   \<not> restartDetected empty_tp 20000 (reached (tick empty_tp params0 15990 playbackStart)) \<and>
   position (reached (tick empty_tp params0 20000
               (reached (tick empty_tp params0 15990 playbackStart)))) = 40 \<and>
   playing (reached (tick empty_tp params0 20000
              (reached (tick empty_tp params0 15990 playbackStart)))) \<and>
   \<not> playing (reached (tick (empty_tp\<lparr>isLooping := False\<rparr>) params0 0 playbackStart))"
  by (simp add: loopDurationMs_def loopEndBeat_def loopEndTime_def empty_tp_def effectiveElapsedMs_def
      restartDetected_def tick_def tickBody_def playbackStart_def beatDuration_def stopPlayback_def)





















lemma overlap_start: "tick overlap_tp params0 0 playbackStart =
   Returned \<lparr>timelineNotes = [], lastTime = 0, activeClips = [(''cA'', [])],
     hasLooped = False, activeClipsWithParams = [''cA''], currentParametersClipId = Some ''cA'',
     scheduledNotes = [], playing = True, position = 0,
     calls = reached (applyParameters saved0)\<rparr>"
  by (simp add: timeline_eval overlap_tp_def pat_a_def pat_b_def clip_a_def clip_b_def
      applyParameters_def saved0_def)

lemma overlap_second:
  "tick overlap_tp params0 1000 (reached (tick overlap_tp params0 0 playbackStart)) =
   Returned \<lparr>timelineNotes = [], lastTime = 1000, activeClips = [(''cA'', []), (''cB'', [])],
     hasLooped = False, activeClipsWithParams = [''cA'', ''cB''],
     currentParametersClipId = Some ''cB'',
     scheduledNotes = [], playing = True, position = 2,
     calls = reached (applyParameters saved0) @ reached (applyParameters saved1)\<rparr>"
  unfolding overlap_start reached.simps
  by (simp add: timeline_eval overlap_tp_def pat_a_def pat_b_def clip_a_def clip_b_def
      applyParameters_def saved0_def saved1_def)



text \<open>
  The tick in which the owner \<open>cB\<close> has ended: the throw leaves \<open>cB\<close> as the owner though
  it is no longer tracked.
\<close>

lemma owner_restore_throws:
  "tick overlap_tp params0 3000
     (reached (tick overlap_tp params0 1000 (reached (tick overlap_tp params0 0 playbackStart)))) =
   Threw \<lparr>timelineNotes = [], lastTime = 3000, activeClips = [(''cA'', [])],
     hasLooped = False, activeClipsWithParams = [''cA''],
     currentParametersClipId = Some ''cB'',
     scheduledNotes = [], playing = True, position = 6,
     calls = reached (applyParameters saved0) @ reached (applyParameters saved1) @
             [SetWaveform 0, SetADSR (1 / 100) (1 / 5) 1 (3 / 10)]\<rparr>"
  unfolding overlap_second reached.simps
  by (simp add: timeline_eval overlap_tp_def pat_a_def pat_b_def clip_a_def clip_b_def
      applyParameters_def saved0_def saved1_def params0_def params1_def waveformMap_def)








end
